theory Spec2Isabelle
  imports Complex_Main
begin

section \<open>Values and errors\<close>

text \<open>
  A JavaScript number. Finite numbers are represented by their mathematical value; the
  rounding of IEEE-754 doubles and the sign of zero are not represented, so the model is
  exact on the numbers that a double holds exactly (for instance every integer of
  magnitude below \<open>2 ^ 53\<close>).
\<close>

datatype jsnum = Finite rat | PosInfinity | NegInfinity | NaN

text \<open>
  \<open>StackValue = number | string | boolean | object | null | undefined\<close> (word.ts).
  An object is an opaque reference, identified by its address.
\<close>

datatype StackValue =
    VNum jsnum
  | VStr string
  | VBool bool
  | VObj nat
  | VNull
  | VUndefined

text \<open>
  errors.ts: \<open>REIError\<close> carries a message, a \<open>type\<close> tag and an optional context
  object; the subclasses only fix the arguments of \<open>super\<close>. dictionary.ts throws the host's
  plain \<open>Error\<close>, which carries a message only.
\<close>

datatype error =
    REIError string string "(string \<times> string) list option"
  | Error string

definition StackOverflowError :: error where
  "StackOverflowError = REIError ''Stack overflow'' ''STACK_OVERFLOW'' None"

definition StackUnderflowError :: error where
  "StackUnderflowError = REIError ''Stack underflow'' ''STACK_UNDERFLOW'' None"

definition WordNotFoundError :: "string \<Rightarrow> error" where
  "WordNotFoundError name =
     REIError (''Word not found: '' @ name) ''WORD_NOT_FOUND'' (Some [(''word'', name)])"

definition ControlFlowError :: "string \<Rightarrow> error" where
  "ControlFlowError message = REIError message ''CONTROL_FLOW_ERROR'' None"

fun message :: "error \<Rightarrow> string" where
  "message (REIError m t c) = m"
| "message (Error m) = m"

text \<open>The \<open>type\<close> property: present on a \<open>REIError\<close>, absent on a plain \<open>Error\<close>.\<close>

fun error_type :: "error \<Rightarrow> string option" where
  "error_type (REIError m t c) = Some t"
| "error_type (Error m) = None"

fun error_context :: "error \<Rightarrow> (string \<times> string) list option" where
  "error_context (REIError m t c) = c"
| "error_context (Error m) = None"

section \<open>Stack\<close>

text \<open>
  The class \<open>Stack\<close>: the array \<open>items\<close> (bottom first) and the bound \<open>maxDepth\<close>.
  A method is a function from the object's state to its outcome (the exception thrown or
  the value returned) and the state afterwards.
\<close>

record Stack =
  items :: "StackValue list"
  maxDepth :: int

definition new_Stack :: "int \<Rightarrow> Stack" where
  "new_Stack m = \<lparr>items = [], maxDepth = m\<rparr>"

definition push :: "StackValue \<Rightarrow> Stack \<Rightarrow> (error + unit) \<times> Stack" where
  "push v s =
     (if int (length (items s)) \<ge> maxDepth s then (Inl StackOverflowError, s)
      else (Inr (), s\<lparr>items := items s @ [v]\<rparr>))"

definition pop :: "Stack \<Rightarrow> (error + StackValue) \<times> Stack" where
  "pop s =
     (if length (items s) = 0 then (Inl StackUnderflowError, s)
      else (Inr (last (items s)), s\<lparr>items := butlast (items s)\<rparr>))"

definition peek :: "Stack \<Rightarrow> (error + StackValue) \<times> Stack" where
  "peek s =
     (if length (items s) = 0 then (Inl StackUnderflowError, s)
      else (Inr (items s ! (length (items s) - 1)), s))"

definition depth :: "Stack \<Rightarrow> nat" where
  "depth s = length (items s)"

definition clear :: "Stack \<Rightarrow> Stack" where
  "clear s = s\<lparr>items := []\<rparr>"

definition snapshot :: "Stack \<Rightarrow> StackValue list" where
  "snapshot s = items s"

text \<open>A sequence of pushes, stopping at the first exception.\<close>

fun push_all :: "StackValue list \<Rightarrow> Stack \<Rightarrow> (error + unit) \<times> Stack" where
  "push_all [] s = (Inr (), s)"
| "push_all (v # vs) s =
     (case push v s of
        (Inl e, s') \<Rightarrow> (Inl e, s')
      | (Inr u, s') \<Rightarrow> push_all vs s')"

text \<open>\<open>n\<close> pops in a row; the values come in the order they were popped.\<close>

fun pop_n :: "nat \<Rightarrow> Stack \<Rightarrow> (error + StackValue list) \<times> Stack" where
  "pop_n 0 s = (Inr [], s)"
| "pop_n (Suc n) s =
     (case pop s of
        (Inl e, s') \<Rightarrow> (Inl e, s')
      | (Inr v, s') \<Rightarrow>
          (case pop_n n s' of
             (Inl e, s'') \<Rightarrow> (Inl e, s'')
           | (Inr vs, s'') \<Rightarrow> (Inr (v # vs), s'')))"

text \<open>
  The invariant of the data model: \<open>0 \<le> length \<le> maxDepth\<close>. It holds of every stack
  built by the constructor with a capacity that is not negative, and every method keeps it.
\<close>

definition stack_inv :: "Stack \<Rightarrow> bool" where
  "stack_inv s \<longleftrightarrow> int (length (items s)) \<le> maxDepth s"

section \<open>Words\<close>

text \<open>
  word.ts. A word's body is a native function of the host or an array of tokens. A native
  function is represented by an identifier of an arbitrary type \<open>'n\<close>; what it does to the
  machine is given separately, by an interpretation of the identifiers. A \<open>Date\<close> is a
  reading of the clock.
\<close>

type_synonym Date = nat

datatype WordCategory = CORE | STANDARD | USER

datatype 'n WordBody = Native 'n | Compiled "string list"

datatype 'n Word =
  Word (name: string) (stackEffect: string) (body: "'n WordBody") (immediate: bool)
    (protected: bool) (category: WordCategory) (metadata: "'n WordMetadata")
and 'n WordMetadata =
  WordMetadata (defined: Date) (usageCount: int)
    (previousDefinitions: "(Date \<times> 'n Word) list option") (documentation: "string option")

text \<open>\<open>Partial<Word>\<close>: every field may be absent.\<close>

record 'n PartialWord =
  p_name :: "string option"
  p_stackEffect :: "string option"
  p_body :: "'n WordBody option"
  p_immediate :: "bool option"
  p_protected :: "bool option"
  p_category :: "WordCategory option"
  p_metadata :: "'n WordMetadata option"

text \<open>A complete word passed where a \<open>Partial<Word>\<close> is expected.\<close>

definition partial_of :: "'n Word \<Rightarrow> 'n PartialWord" where
  "partial_of w =
     \<lparr>p_name = Some (name w), p_stackEffect = Some (stackEffect w), p_body = Some (body w),
      p_immediate = Some (immediate w), p_protected = Some (protected w),
      p_category = Some (category w), p_metadata = Some (metadata w)\<rparr>"

text \<open>The operator \<open>??\<close>: the left operand unless it is absent.\<close>

fun nullish :: "'a option \<Rightarrow> 'a \<Rightarrow> 'a" where
  "nullish (Some x) d = x"
| "nullish None d = d"

section \<open>Dictionary\<close>

text \<open>
  dictionary.ts: the map \<open>words\<close> and the array \<open>definitionOrder\<close>. The method
  \<open>define\<close> is \<open>define_word\<close> here; it reads the clock (\<open>new Date()\<close>), and the reading is
  the argument \<open>now\<close>.
\<close>

record 'n Dictionary =
  words :: "string \<rightharpoonup> 'n Word"
  definitionOrder :: "string list"

definition new_Dictionary :: "'n Dictionary" where
  "new_Dictionary = \<lparr>words = Map.empty, definitionOrder = []\<rparr>"

text \<open>The word that \<open>define\<close> builds from its arguments, before any history is attached.\<close>

definition completeWord :: "string \<Rightarrow> 'n PartialWord \<Rightarrow> Date \<Rightarrow> 'n Word" where
  "completeWord nm w now =
     Word nm
       (nullish (p_stackEffect w) ''( -- )'')
       (nullish (p_body w) (Compiled []))
       (nullish (p_immediate w) False)
       (nullish (p_protected w) False)
       (nullish (p_category w) USER)
       (nullish (p_metadata w) (WordMetadata now 0 None None))"

text \<open>
  \<open>metadata.previousDefinitions.push({timestamp: new Date(), definition: existing})\<close>, after
  an absent list has been replaced by the empty one.
\<close>

fun archive :: "Date \<Rightarrow> 'n Word \<Rightarrow> 'n WordMetadata \<Rightarrow> 'n WordMetadata" where
  "archive now existing (WordMetadata d u pd doc) =
     WordMetadata d u (Some (nullish pd [] @ [(now, existing)])) doc"

fun with_metadata :: "'n WordMetadata \<Rightarrow> 'n Word \<Rightarrow> 'n Word" where
  "with_metadata m (Word n se b i p c m0) = Word n se b i p c m"

definition define_word ::
  "string \<Rightarrow> 'n PartialWord \<Rightarrow> Date \<Rightarrow> 'n Dictionary \<Rightarrow> (error + unit) \<times> 'n Dictionary" where
  "define_word nm w now d =
     (case words d nm of
        Some existing \<Rightarrow>
          if protected existing
          then (Inl (Error (''Cannot redefine protected word: '' @ nm)), d)
          else
            (let cw = completeWord nm w now;
                 cw' = with_metadata (archive now existing (metadata cw)) cw
             in (Inr (), d\<lparr>words := (words d)(nm \<mapsto> cw')\<rparr>))
      | None \<Rightarrow>
          (let cw = completeWord nm w now
           in (Inr (), d\<lparr>words := (words d)(nm \<mapsto> cw),
                           definitionOrder := definitionOrder d @ [nm]\<rparr>)))"

definition find :: "string \<Rightarrow> 'n Dictionary \<Rightarrow> 'n Word option" where
  "find nm d = words d nm"

definition forget :: "string \<Rightarrow> 'n Dictionary \<Rightarrow> (error + unit) \<times> 'n Dictionary" where
  "forget nm d =
     (case words d nm of
        None \<Rightarrow> (Inl (Error (''Cannot forget unknown word: '' @ nm)), d)
      | Some word \<Rightarrow>
          if protected word
          then (Inl (Error (''Cannot forget protected word: '' @ nm)), d)
          else (Inr (), d\<lparr>words := (words d)(nm := None),
                          definitionOrder := remove1 nm (definitionOrder d)\<rparr>))"

text \<open>\<open>list(filter?)\<close>: the names in definition order, or those of one category.\<close>

definition list_words :: "WordCategory option \<Rightarrow> 'n Dictionary \<Rightarrow> string list" where
  "list_words flt d =
     (case flt of
        None \<Rightarrow> definitionOrder d
      | Some c \<Rightarrow>
          filter (\<lambda>nm. case words d nm of None \<Rightarrow> False | Some word \<Rightarrow> category word = c)
            (definitionOrder d))"

text \<open>
  The invariant of the data model: \<open>definitionOrder\<close> lists the keys of the map, each once,
  and every word is stored under its own name.
\<close>

definition dict_inv :: "'n Dictionary \<Rightarrow> bool" where
  "dict_inv d \<longleftrightarrow>
     distinct (definitionOrder d) \<and> set (definitionOrder d) = dom (words d) \<and>
     (\<forall>k w. words d k = Some w \<longrightarrow> name w = k)"

text \<open>A caller's calls on one name, each in its own \<open>try\<close>: the outcomes and the final state.\<close>

datatype 'n attempt = TryDefine "'n PartialWord" Date | TryForget

fun attempts ::
  "string \<Rightarrow> 'n attempt list \<Rightarrow> 'n Dictionary \<Rightarrow> (error + unit) list \<times> 'n Dictionary" where
  "attempts nm [] d = ([], d)"
| "attempts nm (TryDefine w now # rest) d =
     (case define_word nm w now d of (r, d') \<Rightarrow>
        (case attempts nm rest d' of (rs, d'') \<Rightarrow> (r # rs, d'')))"
| "attempts nm (TryForget # rest) d =
     (case forget nm d of (r, d') \<Rightarrow>
        (case attempts nm rest d' of (rs, d'') \<Rightarrow> (r # rs, d'')))"

section \<open>The host's string functions\<close>

text \<open>
  A string is a list of characters with codes below 256. The white space of \<open>trim\<close>, of the
  regular expression \<open>\s\<close> and of \<open>Number\<close> is, among these codes: tab, line feed, vertical
  tab, form feed, carriage return, space and no-break space.
\<close>

definition is_space :: "char \<Rightarrow> bool" where
  "is_space c \<longleftrightarrow> (of_char c :: nat) \<in> {9, 10, 11, 12, 13, 32, 160}"

definition trim :: "string \<Rightarrow> string" where
  "trim s = rev (dropWhile is_space (rev (dropWhile is_space s)))"

text \<open>
  \<open>split(/\s+/)\<close>: the pieces between the maximal runs of white space; a run at either end
  leaves an empty piece there, and the empty string gives one empty piece.
\<close>

function split_spaces :: "string \<Rightarrow> string \<Rightarrow> string list" where
  "split_spaces cur [] = [rev cur]"
| "split_spaces cur (c # cs) =
     (if is_space c then rev cur # split_spaces [] (dropWhile is_space cs)
      else split_spaces (c # cur) cs)"
  by pat_completeness auto
termination
  by (relation "measure (\<lambda>(cur, s). length s)") (auto simp: le_imp_less_Suc length_dropWhile_le)

subsection \<open>Number(string)\<close>

text \<open>
  The conversion of a string to a number (ECMAScript, StringToNumber): white space is
  trimmed; the empty string is 0; otherwise the text must be a StrNumericLiteral, that is a
  binary, octal or hexadecimal integer with its prefix and no sign, or a decimal literal
  with an optional sign: \<open>Infinity\<close>, or digits with an optional fraction and an optional
  exponent. Any other text converts to \<open>NaN\<close>.
\<close>

definition digit_of :: "char \<Rightarrow> nat option" where
  "digit_of c =
     (let n = (of_char c :: nat) in
      if 48 \<le> n \<and> n \<le> 57 then Some (n - 48)
      else if 97 \<le> n \<and> n \<le> 102 then Some (n - 87)
      else if 65 \<le> n \<and> n \<le> 70 then Some (n - 55)
      else None)"

definition is_digit :: "nat \<Rightarrow> char \<Rightarrow> bool" where
  "is_digit base c = (case digit_of c of None \<Rightarrow> False | Some v \<Rightarrow> v < base)"

definition digits_value :: "nat \<Rightarrow> string \<Rightarrow> nat" where
  "digits_value base s = foldl (\<lambda>acc c. base * acc + the (digit_of c)) 0 s"

definition all_digits :: "nat \<Rightarrow> string \<Rightarrow> bool" where
  "all_digits base s \<longleftrightarrow> s \<noteq> [] \<and> list_all (is_digit base) s"

definition radix_literal :: "nat \<Rightarrow> string \<Rightarrow> jsnum" where
  "radix_literal base ds =
     (if all_digits base ds then Finite (of_nat (digits_value base ds)) else NaN)"

definition scale10 :: "nat \<Rightarrow> int \<Rightarrow> rat" where
  "scale10 m e = (if 0 \<le> e then of_nat m * 10 ^ nat e else of_nat m / 10 ^ nat (- e))"

text \<open>The exponent part, if any: \<open>e\<close> or \<open>E\<close>, an optional sign, and at least one digit.\<close>

definition exponent_part :: "string \<Rightarrow> int option" where
  "exponent_part s =
     (case s of
        [] \<Rightarrow> Some 0
      | c # r \<Rightarrow>
          if c = CHR ''e'' \<or> c = CHR ''E'' then
            (case r of
               [] \<Rightarrow> None
             | sg # ds \<Rightarrow>
                 if sg = CHR ''+'' then
                   (if all_digits 10 ds then Some (int (digits_value 10 ds)) else None)
                 else if sg = CHR ''-'' then
                   (if all_digits 10 ds then Some (- int (digits_value 10 ds)) else None)
                 else (if all_digits 10 r then Some (int (digits_value 10 r)) else None))
          else None)"

definition unsigned_decimal :: "string \<Rightarrow> jsnum" where
  "unsigned_decimal s =
     (if s = ''Infinity'' then PosInfinity
      else
        (let ip = takeWhile (is_digit 10) s;
             r1 = dropWhile (is_digit 10) s;
             fp = (case r1 of [] \<Rightarrow> [] | c # r \<Rightarrow>
                     if c = CHR ''.'' then takeWhile (is_digit 10) r else []);
             r2 = (case r1 of [] \<Rightarrow> [] | c # r \<Rightarrow>
                     if c = CHR ''.'' then dropWhile (is_digit 10) r else r1)
         in if ip = [] \<and> fp = [] then NaN
            else
              (case exponent_part r2 of
                 None \<Rightarrow> NaN
               | Some e \<Rightarrow> Finite (scale10 (digits_value 10 (ip @ fp)) (e - int (length fp))))))"

fun negate :: "jsnum \<Rightarrow> jsnum" where
  "negate (Finite q) = Finite (- q)"
| "negate PosInfinity = NegInfinity"
| "negate NegInfinity = PosInfinity"
| "negate NaN = NaN"

definition numeric_literal :: "string \<Rightarrow> jsnum" where
  "numeric_literal s =
     (case s of
        [] \<Rightarrow> NaN
      | c # r \<Rightarrow>
          if c = CHR ''+'' then unsigned_decimal r
          else if c = CHR ''-'' then negate (unsigned_decimal r)
          else if c = CHR ''0'' \<and> r \<noteq> [] \<and> (hd r = CHR ''x'' \<or> hd r = CHR ''X'')
            then radix_literal 16 (tl r)
          else if c = CHR ''0'' \<and> r \<noteq> [] \<and> (hd r = CHR ''o'' \<or> hd r = CHR ''O'')
            then radix_literal 8 (tl r)
          else if c = CHR ''0'' \<and> r \<noteq> [] \<and> (hd r = CHR ''b'' \<or> hd r = CHR ''B'')
            then radix_literal 2 (tl r)
          else unsigned_decimal s)"

definition Number :: "string \<Rightarrow> jsnum" where
  "Number s = (let t = trim s in if t = [] then Finite 0 else numeric_literal t)"

definition isNaN :: "jsnum \<Rightarrow> bool" where
  "isNaN num \<longleftrightarrow> num = NaN"

subsection \<open>JSON text of an array of strings\<close>

text \<open>
  \<open>JSON.stringify\<close> on an array of strings (ECMAScript, QuoteJSONString): the quoted
  elements, separated by commas, in brackets. In a quoted string the double quote and the
  backslash are escaped with a backslash, the control characters 8, 9, 10, 12 and 13 have
  their short escapes, any other code below 32 is written \<open>\u00hh\<close> in lower-case
  hexadecimal, and every other character stands for itself.
\<close>

definition dquote :: char where
  "dquote = CHR 0x22"

definition backslash :: char where
  "backslash = CHR 0x5C"

definition hex_digit :: "nat \<Rightarrow> char" where
  "hex_digit n = (if n < 10 then char_of (48 + n) else char_of (87 + n))"

definition escape_char :: "char \<Rightarrow> string" where
  "escape_char c =
     (let n = (of_char c :: nat) in
      if c = dquote then [backslash, dquote]
      else if c = backslash then [backslash, backslash]
      else if n = 8 then [backslash, CHR ''b'']
      else if n = 12 then [backslash, CHR ''f'']
      else if n = 10 then [backslash, CHR ''n'']
      else if n = 13 then [backslash, CHR ''r'']
      else if n = 9 then [backslash, CHR ''t'']
      else if n < 32 then
        [backslash, CHR ''u'', CHR ''0'', CHR ''0'', hex_digit (n div 16), hex_digit (n mod 16)]
      else [c])"

definition json_quote :: "string \<Rightarrow> string" where
  "json_quote s = dquote # concat (map escape_char s) @ [dquote]"

fun join_commas :: "string list \<Rightarrow> string" where
  "join_commas [] = []"
| "join_commas [x] = x"
| "join_commas (x # y # ys) = x @ CHR '','' # join_commas (y # ys)"

definition json_stringify :: "string list \<Rightarrow> string" where
  "json_stringify ts = CHR ''['' # join_commas (map json_quote ts) @ [CHR '']'']"

text \<open>
  \<open>JSON.parse\<close>, for the texts that denote an array of strings: \<open>None\<close> for any other text
  (for which the host throws a SyntaxError or returns a value that is not a \<open>string[]\<close>),
  and for an escape \<open>\uhhhh\<close> of a code above 255, which a string of this model cannot hold.
\<close>

definition json_space :: "char \<Rightarrow> bool" where
  "json_space c \<longleftrightarrow> (of_char c :: nat) \<in> {9, 10, 13, 32}"

definition unescape_char :: "char \<Rightarrow> char option" where
  "unescape_char e =
     (if e = dquote then Some dquote
      else if e = backslash then Some backslash
      else if e = CHR ''/'' then Some (CHR ''/'')
      else if e = CHR ''b'' then Some (char_of (8 :: nat))
      else if e = CHR ''f'' then Some (char_of (12 :: nat))
      else if e = CHR ''n'' then Some (char_of (10 :: nat))
      else if e = CHR ''r'' then Some (char_of (13 :: nat))
      else if e = CHR ''t'' then Some (char_of (9 :: nat))
      else None)"

definition hex4 :: "char \<Rightarrow> char \<Rightarrow> char \<Rightarrow> char \<Rightarrow> char option" where
  "hex4 a b c d =
     (case (digit_of a, digit_of b, digit_of c, digit_of d) of
        (Some x, Some y, Some z, Some w) \<Rightarrow>
          (let n = ((x * 16 + y) * 16 + z) * 16 + w in if n < 256 then Some (char_of n) else None)
      | _ \<Rightarrow> None)"

text \<open>The characters of a string up to its closing quote, and the text after the quote.\<close>

fun string_body :: "string \<Rightarrow> (string \<times> string) option" where
  "string_body [] = None"
| "string_body (c # r) =
     (if c = dquote then Some ([], r)
      else if c = backslash then
        (case r of
           [] \<Rightarrow> None
         | e # r1 \<Rightarrow>
             if e = CHR ''u'' then
               (case r1 of
                  h1 # h2 # h3 # h4 # r2 \<Rightarrow>
                    (case hex4 h1 h2 h3 h4 of
                       None \<Rightarrow> None
                     | Some ch \<Rightarrow> map_option (\<lambda>(s, t). (ch # s, t)) (string_body r2))
                | _ \<Rightarrow> None)
             else
               (case unescape_char e of
                  None \<Rightarrow> None
                | Some ch \<Rightarrow> map_option (\<lambda>(s, t). (ch # s, t)) (string_body r1)))
      else if (of_char c :: nat) < 32 then None
      else map_option (\<lambda>(s, t). (c # s, t)) (string_body r))"

lemma string_body_shorter: "string_body s = Some (str, t) \<Longrightarrow> length t < length s"
proof (induction s arbitrary: str rule: string_body.induct)
  case 1
  then show ?case by simp
next
  case (2 c r)
  then show ?case
    by (fastforce split: if_splits list.splits option.splits)
qed

text \<open>The elements of the array, from the opening quote of one of them on.\<close>

function elements :: "string \<Rightarrow> string list option" where
  "elements s =
     (case s of
        [] \<Rightarrow> None
      | q # r \<Rightarrow>
          if q = dquote then
            (case string_body r of
               None \<Rightarrow> None
             | Some (str, r1) \<Rightarrow>
                 (case dropWhile json_space r1 of
                    [] \<Rightarrow> None
                  | c # r2 \<Rightarrow>
                      if c = CHR '','' then
                        map_option (\<lambda>strs. str # strs) (elements (dropWhile json_space r2))
                      else if c = CHR '']'' then
                        (if dropWhile json_space r2 = [] then Some [str] else None)
                      else None))
          else None)"
  by pat_completeness auto
termination
proof (relation "measure length", goal_cases)
  case 1
  then show ?case by simp
next
  case (2 s q r x str r1 c r2)
  have a: "length r1 < length r"
    using 2 by (auto dest: string_body_shorter)
  have b: "length (c # r2) \<le> length r1"
    using 2 length_dropWhile_le [of json_space r1] by simp
  have c: "length (dropWhile json_space r2) \<le> length r2"
    by (rule length_dropWhile_le)
  show ?case
    using a b c 2 by simp
qed

declare elements.simps [simp del]

definition json_parse :: "string \<Rightarrow> string list option" where
  "json_parse s =
     (case dropWhile json_space s of
        [] \<Rightarrow> None
      | b # r \<Rightarrow>
          if b = CHR ''['' then
            (case dropWhile json_space r of
               [] \<Rightarrow> None
             | c # r1 \<Rightarrow>
                 if c = CHR '']'' then (if dropWhile json_space r1 = [] then Some [] else None)
                 else elements (c # r1))
          else None)"

section \<open>The virtual machine\<close>

text \<open>
  vm.ts. The machine owns a data stack, a return stack and a dictionary; \<open>tracing\<close> and
  \<open>trace\<close> are set by the constructor and used by no method.
\<close>

record VMConfig =
  stackDepth :: "int option"
  returnStackDepth :: "int option"

record 'n VM =
  dataStack :: Stack
  returnStack :: Stack
  dictionary :: "'n Dictionary"
  tracing :: bool
  trace :: "StackValue list"
  config :: VMConfig

definition new_VM :: "VMConfig option \<Rightarrow> 'n VM" where
  "new_VM cfg =
     \<lparr>dataStack = new_Stack (nullish (case cfg of None \<Rightarrow> None | Some c \<Rightarrow> stackDepth c) 256),
      returnStack =
        new_Stack (nullish (case cfg of None \<Rightarrow> None | Some c \<Rightarrow> returnStackDepth c) 256),
      dictionary = new_Dictionary,
      tracing = False,
      trace = [],
      config = nullish cfg \<lparr>stackDepth = None, returnStackDepth = None\<rparr>\<rparr>"

definition parse :: "string \<Rightarrow> string list" where
  "parse code = filter (\<lambda>token. length token > 0) (split_spaces [] (trim code))"

text \<open>
  A call on the machine returns, leaving a state, or throws, leaving the state reached when
  the exception was raised. A native body is interpreted by a function \<open>N\<close> from its
  identifier and the machine to such an outcome; \<open>None\<close> stands for a native call with no
  outcome in the model (one that does not return, or whose effect lies outside the values
  modelled).
\<close>

datatype 'n outcome = Returns "'n VM" | Throws error "'n VM"

type_synonym 'n natives = "'n \<Rightarrow> 'n VM \<Rightarrow> 'n outcome option"

text \<open>
  \<open>execute\<close> calls itself for the tokens of a compiled body, to a depth that only the host's
  call stack bounds. The first argument after \<open>N\<close> bounds the depth of the nested calls;
  \<open>None\<close> is the outcome of a call that needs more. \<open>execute_body\<close> is the loop over the
  tokens of a compiled body.
\<close>

fun execute :: "'n natives \<Rightarrow> nat \<Rightarrow> 'n Word + string \<Rightarrow> 'n VM \<Rightarrow> 'n outcome option"
and execute_body :: "'n natives \<Rightarrow> nat \<Rightarrow> string list \<Rightarrow> 'n VM \<Rightarrow> 'n outcome option" where
  "execute N 0 wordOrName vm = None"
| "execute N (Suc fuel) wordOrName vm =
     (case (case wordOrName of Inr nm \<Rightarrow> find nm (dictionary vm) | Inl w \<Rightarrow> Some w) of
        None \<Rightarrow> Some (Throws (WordNotFoundError (projr wordOrName)) vm)
      | Some word \<Rightarrow>
          (case body word of
             Native f \<Rightarrow> N f vm
           | Compiled tokens \<Rightarrow> execute_body N fuel tokens vm))"
| "execute_body N fuel [] vm = Some (Returns vm)"
| "execute_body N fuel (token # tokens) vm =
     (let num = Number token in
      if \<not> isNaN num then
        (case push (VNum num) (dataStack vm) of
           (Inl e, s) \<Rightarrow> Some (Throws e (vm\<lparr>dataStack := s\<rparr>))
         | (Inr u, s) \<Rightarrow> execute_body N fuel tokens (vm\<lparr>dataStack := s\<rparr>))
      else
        (case execute N fuel (Inr token) vm of
           None \<Rightarrow> None
         | Some (Throws e vm') \<Rightarrow> Some (Throws e vm')
         | Some (Returns vm') \<Rightarrow> execute_body N fuel tokens vm'))"

text \<open>The loop of \<open>run\<close> over the tokens of the source text.\<close>

fun run_tokens :: "'n natives \<Rightarrow> nat \<Rightarrow> string list \<Rightarrow> 'n VM \<Rightarrow> 'n outcome option" where
  "run_tokens N fuel [] vm = Some (Returns vm)"
| "run_tokens N fuel (token # tokens) vm =
     (let num = Number token in
      if \<not> isNaN num then
        (case push (VNum num) (dataStack vm) of
           (Inl e, s) \<Rightarrow> Some (Throws e (vm\<lparr>dataStack := s\<rparr>))
         | (Inr u, s) \<Rightarrow> run_tokens N fuel tokens (vm\<lparr>dataStack := s\<rparr>))
      else
        (case execute N fuel (Inr token) vm of
           None \<Rightarrow> None
         | Some (Throws e vm') \<Rightarrow> Some (Throws e vm')
         | Some (Returns vm') \<Rightarrow> run_tokens N fuel tokens vm'))"

definition run :: "'n natives \<Rightarrow> nat \<Rightarrow> string \<Rightarrow> 'n VM \<Rightarrow> 'n outcome option" where
  "run N fuel code vm = run_tokens N fuel (parse code) vm"

subsection \<open>Serialization\<close>

record 'n SerializedWord =
  s_name :: string
  s_stackEffect :: string
  s_body :: string
  s_immediate :: bool
  s_metadata :: "'n WordMetadata"

record 'n VMState =
  st_version :: string
  st_timestamp :: Date
  st_stack :: "StackValue list"
  st_dictionary :: "'n SerializedWord list"
  st_config :: VMConfig

definition serialize_word :: "'n Word \<Rightarrow> 'n SerializedWord" where
  "serialize_word word =
     \<lparr>s_name = name word,
      s_stackEffect = stackEffect word,
      s_body = (case body word of Native f \<Rightarrow> ''__NATIVE__'' | Compiled ts \<Rightarrow> json_stringify ts),
      s_immediate = immediate word,
      s_metadata = metadata word\<rparr>"

text \<open>
  \<open>this.dictionary.find(name)!\<close> for each listed name: reading a field of a word that is
  not there throws the host's TypeError.
\<close>

fun found_words :: "string list \<Rightarrow> 'n Dictionary \<Rightarrow> error + 'n Word list" where
  "found_words [] d = Inr []"
| "found_words (nm # nms) d =
     (case find nm d of
        None \<Rightarrow> Inl (Error ''TypeError: null is not an object'')
      | Some word \<Rightarrow>
          (case found_words nms d of
             Inl e \<Rightarrow> Inl e
           | Inr ws \<Rightarrow> Inr (word # ws)))"

text \<open>
  \<open>serialize\<close> reads the clock for the timestamp (the argument \<open>now\<close>). It is a method like
  the others: its outcome and the state of the machine afterwards.
\<close>

definition serialize :: "Date \<Rightarrow> 'n VM \<Rightarrow> (error + 'n VMState) \<times> 'n VM" where
  "serialize now vm =
     (let userWords = list_words (Some USER) (dictionary vm) in
      case found_words userWords (dictionary vm) of
        Inl e \<Rightarrow> (Inl e, vm)
      | Inr ws \<Rightarrow>
          (Inr \<lparr>st_version = ''0.1.0'',
                st_timestamp = now,
                st_stack = snapshot (dataStack vm),
                st_dictionary = map serialize_word ws,
                st_config = config vm\<rparr>, vm))"

text \<open>The second loop of \<open>deserialize\<close>, over the serialized words.\<close>

fun restore_words :: "Date \<Rightarrow> 'n SerializedWord list \<Rightarrow> 'n VM \<Rightarrow> 'n outcome option" where
  "restore_words now [] vm = Some (Returns vm)"
| "restore_words now (sw # sws) vm =
     (if s_body sw = ''__NATIVE__'' then restore_words now sws vm
      else
        (case json_parse (s_body sw) of
           None \<Rightarrow> None
         | Some tokens \<Rightarrow>
             (case define_word (s_name sw)
                     \<lparr>p_name = None,
                      p_stackEffect = Some (s_stackEffect sw),
                      p_body = Some (Compiled tokens),
                      p_immediate = Some (s_immediate sw),
                      p_protected = Some False,
                      p_category = Some USER,
                      p_metadata = Some (s_metadata sw)\<rparr>
                     now (dictionary vm) of
                (Inl e, d) \<Rightarrow> Some (Throws e (vm\<lparr>dictionary := d\<rparr>))
              | (Inr u, d) \<Rightarrow> restore_words now sws (vm\<lparr>dictionary := d\<rparr>))))"

text \<open>
  \<open>deserialize\<close>; \<open>None\<close> when a body is not the JSON text of an array of strings (see
  \<open>json_parse\<close>). The clock is read by \<open>define\<close>.
\<close>

definition deserialize :: "Date \<Rightarrow> 'n VMState \<Rightarrow> 'n VM \<Rightarrow> 'n outcome option" where
  "deserialize now state vm =
     (let vm1 = vm\<lparr>dataStack := clear (dataStack vm)\<rparr> in
      case push_all (st_stack state) (dataStack vm1) of
        (Inl e, s) \<Rightarrow> Some (Throws e (vm1\<lparr>dataStack := s\<rparr>))
      | (Inr u, s) \<Rightarrow> restore_words now (st_dictionary state) (vm1\<lparr>dataStack := s\<rparr>))"

subsection \<open>Cloning and bootstrap\<close>

text \<open>The first loop of \<open>clone\<close>: each word of the original is defined in the new dictionary.\<close>

fun copy_words ::
  "Date \<Rightarrow> string list \<Rightarrow> 'n Dictionary \<Rightarrow> 'n Dictionary \<Rightarrow> (error + unit) \<times> 'n Dictionary" where
  "copy_words now [] src dst = (Inr (), dst)"
| "copy_words now (nm # nms) src dst =
     (case find nm src of
        None \<Rightarrow> (Inl (Error ''TypeError: null is not an object''), dst)
      | Some word \<Rightarrow>
          (case define_word nm (partial_of word) now dst of
             (Inl e, dst') \<Rightarrow> (Inl e, dst')
           | (Inr u, dst') \<Rightarrow> copy_words now nms src dst'))"

text \<open>
  \<open>clone\<close> returns the new machine or throws; the machine it is called on is the second
  component of the result.
\<close>

definition clone :: "Date \<Rightarrow> 'n VM \<Rightarrow> (error + 'n VM) \<times> 'n VM" where
  "clone now vm =
     (let newVM = new_VM (Some (config vm)) in
      case copy_words now (list_words None (dictionary vm)) (dictionary vm) (dictionary newVM) of
        (Inl e, d) \<Rightarrow> (Inl e, vm)
      | (Inr u, d) \<Rightarrow>
          (case push_all (snapshot (dataStack vm)) (dataStack newVM) of
             (Inl e, ds) \<Rightarrow> (Inl e, vm)
           | (Inr u, ds) \<Rightarrow>
               (case push_all (snapshot (returnStack vm)) (returnStack newVM) of
                  (Inl e, rs) \<Rightarrow> (Inl e, vm)
                | (Inr u, rs) \<Rightarrow>
                    (Inr (newVM\<lparr>dictionary := d, dataStack := ds, returnStack := rs\<rparr>), vm))))"

text \<open>bootstrap.ts: a new machine with every word of \<open>CoreWords\<close> defined under its name.\<close>

fun define_all :: "Date \<Rightarrow> 'n Word list \<Rightarrow> 'n Dictionary \<Rightarrow> (error + unit) \<times> 'n Dictionary" where
  "define_all now [] d = (Inr (), d)"
| "define_all now (word # ws) d =
     (case define_word (name word) (partial_of word) now d of
        (Inl e, d') \<Rightarrow> (Inl e, d')
      | (Inr u, d') \<Rightarrow> define_all now ws d')"

definition bootstrapVM :: "'n Word list \<Rightarrow> Date \<Rightarrow> VMConfig option \<Rightarrow> error + 'n VM" where
  "bootstrapVM CoreWords now cfg =
     (case define_all now CoreWords (dictionary (new_VM cfg)) of
        (Inl e, d) \<Rightarrow> Inl e
      | (Inr u, d) \<Rightarrow> Inr ((new_VM cfg)\<lparr>dictionary := d\<rparr>))"

text \<open>The invariant of a machine: those of its parts, with the stacks sized by \<open>config\<close>.\<close>

definition vm_inv :: "'n VM \<Rightarrow> bool" where
  "vm_inv vm \<longleftrightarrow>
     stack_inv (dataStack vm) \<and> stack_inv (returnStack vm) \<and> dict_inv (dictionary vm) \<and>
     maxDepth (dataStack vm) = nullish (stackDepth (config vm)) 256 \<and>
     maxDepth (returnStack vm) = nullish (returnStackDepth (config vm)) 256"

section \<open>The core words\<close>

text \<open>
  core/stack-ops.ts and core/arithmetic.ts. A native body is a sequence of calls on
  \<open>vm.dataStack\<close>; the first exception ends it and leaves the stack as the calls before it
  made it.
\<close>

type_synonym 'a stack_prog = "Stack \<Rightarrow> ((error + 'a) \<times> Stack) option"

definition call :: "(Stack \<Rightarrow> (error + 'a) \<times> Stack) \<Rightarrow> 'a stack_prog" where
  "call m s = Some (m s)"

definition next_call :: "'a stack_prog \<Rightarrow> ('a \<Rightarrow> 'b stack_prog) \<Rightarrow> 'b stack_prog" where
  "next_call m f s =
     (case m s of
        None \<Rightarrow> None
      | Some (Inl e, s') \<Rightarrow> Some (Inl e, s')
      | Some (Inr a, s') \<Rightarrow> f a s')"

text \<open>
  An operator of the host applied to two stack values. The model gives its result on the
  safe integers, where the arithmetic of doubles is exact, and \<open>None\<close> elsewhere.
\<close>

definition host :: "StackValue option \<Rightarrow> StackValue stack_prog" where
  "host r s = (case r of None \<Rightarrow> None | Some v \<Rightarrow> Some (Inr v, s))"

definition on_dataStack :: "'a stack_prog \<Rightarrow> 'n VM \<Rightarrow> 'n outcome option" where
  "on_dataStack m vm =
     (case m (dataStack vm) of
        None \<Rightarrow> None
      | Some (Inl e, s) \<Rightarrow> Some (Throws e (vm\<lparr>dataStack := s\<rparr>))
      | Some (Inr a, s) \<Rightarrow> Some (Returns (vm\<lparr>dataStack := s\<rparr>)))"

definition safe_integer :: "StackValue \<Rightarrow> int option" where
  "safe_integer v =
     (case v of
        VNum (Finite q) \<Rightarrow>
          if of_int \<lfloor>q\<rfloor> = q \<and> \<bar>q\<bar> \<le> 9007199254740991 then Some \<lfloor>q\<rfloor> else None
      | _ \<Rightarrow> None)"

definition of_safe :: "int \<Rightarrow> StackValue option" where
  "of_safe i = (if \<bar>i\<bar> \<le> 9007199254740991 then Some (VNum (Finite (of_int i))) else None)"

definition on_integers :: "(int \<Rightarrow> int \<Rightarrow> StackValue option) \<Rightarrow> StackValue \<Rightarrow> StackValue \<Rightarrow> StackValue option" where
  "on_integers f a b =
     (case (safe_integer a, safe_integer b) of
        (Some x, Some y) \<Rightarrow> f x y
      | _ \<Rightarrow> None)"

definition js_add :: "StackValue \<Rightarrow> StackValue \<Rightarrow> StackValue option" where
  "js_add = on_integers (\<lambda>x y. of_safe (x + y))"

definition js_sub :: "StackValue \<Rightarrow> StackValue \<Rightarrow> StackValue option" where
  "js_sub = on_integers (\<lambda>x y. of_safe (x - y))"

definition js_mul :: "StackValue \<Rightarrow> StackValue \<Rightarrow> StackValue option" where
  "js_mul = on_integers (\<lambda>x y. of_safe (x * y))"

text \<open>\<open>a / b\<close> where the quotient is an integer; \<open>a % b\<close> has the sign of \<open>a\<close>.\<close>

definition js_div :: "StackValue \<Rightarrow> StackValue \<Rightarrow> StackValue option" where
  "js_div = on_integers (\<lambda>x y. if y \<noteq> 0 \<and> y dvd x then of_safe (x div y) else None)"

definition js_mod :: "StackValue \<Rightarrow> StackValue \<Rightarrow> StackValue option" where
  "js_mod = on_integers (\<lambda>x y. if y \<noteq> 0 then of_safe (sgn x * (\<bar>x\<bar> mod \<bar>y\<bar>)) else None)"

text \<open>
  \<open>a === b\<close>: between two numbers as between the integers; between other values, whether
  they are the same value (two objects: the same reference).
\<close>

fun js_strict_eq :: "StackValue \<Rightarrow> StackValue \<Rightarrow> StackValue option" where
  "js_strict_eq (VNum x) (VNum y) = on_integers (\<lambda>i j. Some (VBool (i = j))) (VNum x) (VNum y)"
| "js_strict_eq a b = Some (VBool (a = b))"

definition js_lt :: "StackValue \<Rightarrow> StackValue \<Rightarrow> StackValue option" where
  "js_lt = on_integers (\<lambda>x y. Some (VBool (x < y)))"

definition js_gt :: "StackValue \<Rightarrow> StackValue \<Rightarrow> StackValue option" where
  "js_gt = on_integers (\<lambda>x y. Some (VBool (x > y)))"

definition js_lte :: "StackValue \<Rightarrow> StackValue \<Rightarrow> StackValue option" where
  "js_lte = on_integers (\<lambda>x y. Some (VBool (x \<le> y)))"

definition js_gte :: "StackValue \<Rightarrow> StackValue \<Rightarrow> StackValue option" where
  "js_gte = on_integers (\<lambda>x y. Some (VBool (x \<ge> y)))"

text \<open>The native bodies, by the name of the constant that holds the word.\<close>

datatype core_native =
    DUP_body | DROP_body | SWAP_body | OVER_body | ROT_body
  | TWODUP_body | TWODROP_body | TWOSWAP_body
  | ADD_body | SUB_body | MUL_body | DIV_body | MOD_body
  | EQ_body | LT_body | GT_body | LTE_body | GTE_body

text \<open>The shape of every body of arithmetic.ts: pop \<open>b\<close>, pop \<open>a\<close>, push the result.\<close>

definition binary :: "(StackValue \<Rightarrow> StackValue \<Rightarrow> StackValue option) \<Rightarrow> unit stack_prog" where
  "binary f =
     next_call (call pop) (\<lambda>b.
     next_call (call pop) (\<lambda>a.
     next_call (host (f a b)) (\<lambda>r.
     call (push r))))"

fun core_body :: "core_native \<Rightarrow> unit stack_prog" where
  "core_body DUP_body =
     next_call (call peek) (\<lambda>v. call (push v))"
| "core_body DROP_body =
     next_call (call pop) (\<lambda>v. call (\<lambda>s. (Inr (), s)))"
| "core_body SWAP_body =
     next_call (call pop) (\<lambda>b.
     next_call (call pop) (\<lambda>a.
     next_call (call (push b)) (\<lambda>u.
     call (push a))))"
| "core_body OVER_body =
     next_call (call pop) (\<lambda>b.
     next_call (call peek) (\<lambda>a.
     next_call (call (push b)) (\<lambda>u.
     call (push a))))"
| "core_body ROT_body =
     next_call (call pop) (\<lambda>c.
     next_call (call pop) (\<lambda>b.
     next_call (call pop) (\<lambda>a.
     next_call (call (push b)) (\<lambda>u.
     next_call (call (push c)) (\<lambda>u.
     call (push a))))))"
| "core_body TWODUP_body =
     next_call (call pop) (\<lambda>b.
     next_call (call pop) (\<lambda>a.
     next_call (call (push a)) (\<lambda>u.
     next_call (call (push b)) (\<lambda>u.
     next_call (call (push a)) (\<lambda>u.
     call (push b))))))"
| "core_body TWODROP_body =
     next_call (call pop) (\<lambda>v.
     next_call (call pop) (\<lambda>v. call (\<lambda>s. (Inr (), s))))"
| "core_body TWOSWAP_body =
     next_call (call pop) (\<lambda>d.
     next_call (call pop) (\<lambda>c.
     next_call (call pop) (\<lambda>b.
     next_call (call pop) (\<lambda>a.
     next_call (call (push c)) (\<lambda>u.
     next_call (call (push d)) (\<lambda>u.
     next_call (call (push a)) (\<lambda>u.
     call (push b))))))))"
| "core_body ADD_body = binary js_add"
| "core_body SUB_body = binary js_sub"
| "core_body MUL_body = binary js_mul"
| "core_body DIV_body = binary js_div"
| "core_body MOD_body = binary js_mod"
| "core_body EQ_body = binary js_strict_eq"
| "core_body LT_body = binary js_lt"
| "core_body GT_body = binary js_gt"
| "core_body LTE_body = binary js_lte"
| "core_body GTE_body = binary js_gte"

definition core :: "core_native natives" where
  "core f vm = on_dataStack (core_body f) vm"

text \<open>
  The words. Each is protected, of category CORE, and its metadata was built when the
  module was loaded, at the time \<open>t0\<close>.
\<close>

definition core_word :: "string \<Rightarrow> string \<Rightarrow> core_native \<Rightarrow> string \<Rightarrow> Date \<Rightarrow> core_native Word" where
  "core_word nm effect f doc t0 =
     Word nm effect (Native f) False True CORE (WordMetadata t0 0 None (Some doc))"

definition DUP :: "Date \<Rightarrow> core_native Word" where
  "DUP = core_word ''DUP'' ''( n -- n n )'' DUP_body ''Duplicate the top stack value''"

definition DROP :: "Date \<Rightarrow> core_native Word" where
  "DROP = core_word ''DROP'' ''( n -- )'' DROP_body ''Remove the top stack value''"

definition SWAP :: "Date \<Rightarrow> core_native Word" where
  "SWAP = core_word ''SWAP'' ''( a b -- b a )'' SWAP_body ''Swap the top two stack values''"

definition OVER :: "Date \<Rightarrow> core_native Word" where
  "OVER = core_word ''OVER'' ''( a b -- a b a )'' OVER_body
     ''Copy the second stack value to the top''"

definition ROT :: "Date \<Rightarrow> core_native Word" where
  "ROT = core_word ''ROT'' ''( a b c -- b c a )'' ROT_body ''Rotate the top three stack values''"

definition TWODUP :: "Date \<Rightarrow> core_native Word" where
  "TWODUP = core_word ''2DUP'' ''( a b -- a b a b )'' TWODUP_body
     ''Duplicate the top two stack values''"

definition TWODROP :: "Date \<Rightarrow> core_native Word" where
  "TWODROP = core_word ''2DROP'' ''( a b -- )'' TWODROP_body ''Remove the top two stack values''"

definition TWOSWAP :: "Date \<Rightarrow> core_native Word" where
  "TWOSWAP = core_word ''2SWAP'' ''( a b c d -- c d a b )'' TWOSWAP_body
     ''Swap the top two pairs of stack values''"

definition stackOps :: "Date \<Rightarrow> core_native Word list" where
  "stackOps t0 =
     [DUP t0, DROP t0, SWAP t0, OVER t0, ROT t0, TWODUP t0, TWODROP t0, TWOSWAP t0]"

definition ADD :: "Date \<Rightarrow> core_native Word" where
  "ADD = core_word ''+'' ''( a b -- sum )'' ADD_body ''Add two numbers''"

definition SUB :: "Date \<Rightarrow> core_native Word" where
  "SUB = core_word ''-'' ''( a b -- difference )'' SUB_body ''Subtract b from a''"

definition MUL :: "Date \<Rightarrow> core_native Word" where
  "MUL = core_word ''*'' ''( a b -- product )'' MUL_body ''Multiply two numbers''"

definition DIV :: "Date \<Rightarrow> core_native Word" where
  "DIV = core_word ''/'' ''( a b -- quotient )'' DIV_body ''Divide a by b''"

definition MOD :: "Date \<Rightarrow> core_native Word" where
  "MOD = core_word ''MOD'' ''( a b -- remainder )'' MOD_body
     ''Calculate remainder of a divided by b''"

definition EQ :: "Date \<Rightarrow> core_native Word" where
  "EQ = core_word ''='' ''( a b -- bool )'' EQ_body ''Test if two values are equal''"

definition LT :: "Date \<Rightarrow> core_native Word" where
  "LT = core_word ''<'' ''( a b -- bool )'' LT_body ''Test if a is less than b''"

definition GT :: "Date \<Rightarrow> core_native Word" where
  "GT = core_word ''>'' ''( a b -- bool )'' GT_body ''Test if a is greater than b''"

definition LTE :: "Date \<Rightarrow> core_native Word" where
  "LTE = core_word ''<='' ''( a b -- bool )'' LTE_body ''Test if a is less than or equal to b''"

definition GTE :: "Date \<Rightarrow> core_native Word" where
  "GTE = core_word ''>='' ''( a b -- bool )'' GTE_body
     ''Test if a is greater than or equal to b''"

definition arithmeticOps :: "Date \<Rightarrow> core_native Word list" where
  "arithmeticOps t0 =
     [ADD t0, SUB t0, MUL t0, DIV t0, MOD t0, EQ t0, LT t0, GT t0, LTE t0, GTE t0]"

definition CoreWords :: "Date \<Rightarrow> core_native Word list" where
  "CoreWords t0 = stackOps t0 @ arithmeticOps t0"

section \<open>Example words\<close>

text \<open>
  The user word of the scenarios: \<open>SQUARE\<close>, with the compiled body \<open>["DUP", "*"]\<close>, as a
  caller passes it to \<open>define\<close> at the time \<open>t\<close>.
\<close>

definition SQUARE :: "Date \<Rightarrow> 'n PartialWord" where
  "SQUARE t =
     \<lparr>p_name = Some ''SQUARE'', p_stackEffect = Some ''( n -- n*n )'',
      p_body = Some (Compiled [''DUP'', ''*'']), p_immediate = Some False,
      p_protected = Some False, p_category = Some USER,
      p_metadata = Some (WordMetadata t 0 None None)\<rparr>"

text \<open>The state a call leaves, its data stack, and the exception it threw, if any.\<close>

fun state_of :: "'n outcome \<Rightarrow> 'n VM" where
  "state_of (Returns vm) = vm"
| "state_of (Throws e vm) = vm"

fun thrown :: "'n outcome \<Rightarrow> error option" where
  "thrown (Returns vm) = None"
| "thrown (Throws e vm) = Some e"

definition stack_after :: "'n outcome option \<Rightarrow> StackValue list option" where
  "stack_after r = map_option (\<lambda>x. snapshot (dataStack (state_of x))) r"

text \<open>
  A machine bootstrapped with the default configuration in which \<open>SQUARE\<close> has then been
  defined (the core words were built at time 0, the bootstrap ran at time 1).
\<close>

definition bootstrapped :: "core_native VM" where
  "bootstrapped = (new_VM None)\<lparr>dictionary := snd (define_all 1 (CoreWords 0) new_Dictionary)\<rparr>"

definition with_SQUARE :: "core_native VM \<Rightarrow> core_native VM" where
  "with_SQUARE vm = vm\<lparr>dictionary := snd (define_word ''SQUARE'' (SQUARE 2) 2 (dictionary vm))\<rparr>"

section \<open>The interpreter as the specification words it\<close>

text \<open>
  The specification describes one dispatch for both loops: the tokens are taken in order; a
  token that lexes as a numeral pushes its numeric value, and any other token is executed
  by name; the first failure ends the iteration. \<open>dispatch\<close> and \<open>in_order\<close> say this, apart
  from the source, so that the loops of the source can be compared with it.
\<close>

definition dispatch :: "'n natives \<Rightarrow> nat \<Rightarrow> string \<Rightarrow> 'n VM \<Rightarrow> 'n outcome option" where
  "dispatch N fuel token vm =
     (if isNaN (Number token) then execute N fuel (Inr token) vm
      else
        (case push (VNum (Number token)) (dataStack vm) of
           (Inl e, s) \<Rightarrow> Some (Throws e (vm\<lparr>dataStack := s\<rparr>))
         | (Inr u, s) \<Rightarrow> Some (Returns (vm\<lparr>dataStack := s\<rparr>))))"

fun in_order ::
  "(string \<Rightarrow> 'n VM \<Rightarrow> 'n outcome option) \<Rightarrow> string list \<Rightarrow> 'n VM \<Rightarrow> 'n outcome option" where
  "in_order step [] vm = Some (Returns vm)"
| "in_order step (t # ts) vm =
     (case step t vm of
        None \<Rightarrow> None
      | Some (Throws e vm') \<Rightarrow> Some (Throws e vm')
      | Some (Returns vm') \<Rightarrow> in_order step ts vm')"

section \<open>Notions for the round trip\<close>

text \<open>\<open>target.deserialize(source.serialize())\<close>, the two clocks read at \<open>now\<close> and \<open>now'\<close>.\<close>

definition round_trip :: "Date \<Rightarrow> Date \<Rightarrow> 'n VM \<Rightarrow> 'n VM \<Rightarrow> 'n outcome option" where
  "round_trip now now' source target =
     (case serialize now source of
        (Inl e, source') \<Rightarrow> None
      | (Inr state, source') \<Rightarrow> deserialize now' state target)"

definition compiled :: "'n Word \<Rightarrow> bool" where
  "compiled w = (case body w of Native f \<Rightarrow> False | Compiled ts \<Rightarrow> True)"

text \<open>
  A word as a restore defines it: name, stack effect, body, immediate flag and metadata as
  they were, unprotected and of category USER.
\<close>

definition restored :: "'n Word \<Rightarrow> 'n Word" where
  "restored w = Word (name w) (stackEffect w) (body w) (immediate w) False USER (metadata w)"

text \<open>
  Machines for the scenarios: one bootstrapped with a data stack of capacity 1, and one that
  was never bootstrapped, in which a user word named \<open>DUP\<close> is defined; and the call that
  pushes a value on the data stack of a machine.
\<close>

definition small_config :: VMConfig where
  "small_config = \<lparr>stackDepth = Some 1, returnStackDepth = None\<rparr>"

definition small_bootstrapped :: "core_native VM" where
  "small_bootstrapped =
     (new_VM (Some small_config))\<lparr>dictionary := snd (define_all 1 (CoreWords 0) new_Dictionary)\<rparr>"

definition user_DUP :: "core_native VM" where
  "user_DUP =
     (new_VM None)\<lparr>dictionary :=
        snd (define_word ''DUP'' ((SQUARE 2)\<lparr>p_name := Some ''DUP''\<rparr>) 2 new_Dictionary)\<rparr>"

definition pushed :: "StackValue \<Rightarrow> 'n VM \<Rightarrow> 'n VM" where
  "pushed v vm = vm\<lparr>dataStack := snd (push v (dataStack vm))\<rparr>"

section \<open>Machines as objects\<close>

text \<open>
  Two machines are two objects, and so are their stacks and dictionaries. To say what a
  call on one machine does to another, the objects live in a heap: a machine object holds
  the addresses of its data stack, its return stack and its dictionary, and its flags. The
  state of the machine at an address is read from the heap, and a method called on that
  machine writes back to the objects of that machine only.
\<close>

record VM_object =
  dataStack_at :: nat
  returnStack_at :: nat
  dictionary_at :: nat
  tracing_field :: bool
  trace_field :: "StackValue list"
  config_field :: VMConfig

record 'n heap =
  stack_objects :: "nat \<Rightarrow> Stack"
  dictionary_objects :: "nat \<Rightarrow> 'n Dictionary"
  machine_objects :: "nat \<Rightarrow> VM_object"
  allocated :: nat

definition state_at :: "'n heap \<Rightarrow> nat \<Rightarrow> 'n VM" where
  "state_at h r =
     (let ob = machine_objects h r in
      \<lparr>dataStack = stack_objects h (dataStack_at ob),
       returnStack = stack_objects h (returnStack_at ob),
       dictionary = dictionary_objects h (dictionary_at ob),
       tracing = tracing_field ob,
       trace = trace_field ob,
       config = config_field ob\<rparr>)"

definition write_state :: "'n VM \<Rightarrow> nat \<Rightarrow> 'n heap \<Rightarrow> 'n heap" where
  "write_state vm r h =
     (let ob = machine_objects h r in
      h\<lparr>stack_objects :=
          (stack_objects h)(dataStack_at ob := dataStack vm, returnStack_at ob := returnStack vm),
        dictionary_objects := (dictionary_objects h)(dictionary_at ob := dictionary vm),
        machine_objects :=
          (machine_objects h)(r := ob\<lparr>tracing_field := tracing vm, trace_field := trace vm,
                                        config_field := config vm\<rparr>)\<rparr>)"

text \<open>
  \<open>new VM(config)\<close>: the machine object and the three objects its constructor creates take
  the next four addresses.
\<close>

definition new_VM_at :: "VMConfig option \<Rightarrow> 'n heap \<Rightarrow> nat \<times> 'n heap" where
  "new_VM_at cfg h =
     (let a = allocated h;
          ob = \<lparr>dataStack_at = a + 1, returnStack_at = a + 2, dictionary_at = a + 3,
                tracing_field = False, trace_field = [],
                config_field = \<lparr>stackDepth = None, returnStackDepth = None\<rparr>\<rparr>
      in (a, write_state (new_VM cfg) a
               (h\<lparr>machine_objects := (machine_objects h)(a := ob), allocated := a + 4\<rparr>)))"

text \<open>A method called on the machine at \<open>r\<close>: the exception, if any, and the heap afterwards.\<close>

definition call_at ::
  "('n VM \<Rightarrow> 'n outcome option) \<Rightarrow> nat \<Rightarrow> 'n heap \<Rightarrow> (error option \<times> 'n heap) option" where
  "call_at m r h =
     (case m (state_at h r) of
        None \<Rightarrow> None
      | Some (Returns vm) \<Rightarrow> Some (None, write_state vm r h)
      | Some (Throws e vm) \<Rightarrow> Some (Some e, write_state vm r h))"

text \<open>
  \<open>clone\<close> on the machine at \<open>r\<close>: the new machine is allocated, and what the loops of
  \<open>clone\<close> build is the state of the new machine. The address of the clone is returned.
\<close>

definition clone_at :: "Date \<Rightarrow> nat \<Rightarrow> 'n heap \<Rightarrow> (error + nat) \<times> 'n heap" where
  "clone_at now r h =
     (case new_VM_at (Some (config (state_at h r))) h of
        (r', h1) \<Rightarrow>
          (case clone now (state_at h r) of
             (Inl e, vm) \<Rightarrow> (Inl e, h1)
           | (Inr c, vm) \<Rightarrow> (Inr r', write_state c r' h1)))"

text \<open>
  What a caller may do to a machine after cloning: run source text, execute a word, or call
  a method of its data stack.
\<close>

datatype operation = Run string | Execute string | Push StackValue | Pop | Peek | Clear

fun perform :: "'n natives \<Rightarrow> nat \<Rightarrow> operation \<Rightarrow> 'n VM \<Rightarrow> 'n outcome option" where
  "perform N fuel (Run code) vm = run N fuel code vm"
| "perform N fuel (Execute nm) vm = execute N fuel (Inr nm) vm"
| "perform N fuel (Push v) vm =
     (case push v (dataStack vm) of
        (Inl e, s) \<Rightarrow> Some (Throws e (vm\<lparr>dataStack := s\<rparr>))
      | (Inr u, s) \<Rightarrow> Some (Returns (vm\<lparr>dataStack := s\<rparr>)))"
| "perform N fuel Pop vm =
     (case pop (dataStack vm) of
        (Inl e, s) \<Rightarrow> Some (Throws e (vm\<lparr>dataStack := s\<rparr>))
      | (Inr v, s) \<Rightarrow> Some (Returns (vm\<lparr>dataStack := s\<rparr>)))"
| "perform N fuel Peek vm =
     (case peek (dataStack vm) of
        (Inl e, s) \<Rightarrow> Some (Throws e (vm\<lparr>dataStack := s\<rparr>))
      | (Inr v, s) \<Rightarrow> Some (Returns (vm\<lparr>dataStack := s\<rparr>)))"
| "perform N fuel Clear vm = Some (Returns (vm\<lparr>dataStack := clear (dataStack vm)\<rparr>))"

text \<open>
  A sequence of such calls on the machine at \<open>r\<close>, each in its own \<open>try\<close>; \<open>None\<close> when one
  of them has no outcome.
\<close>

fun perform_all_at :: "'n natives \<Rightarrow> nat \<Rightarrow> nat \<Rightarrow> operation list \<Rightarrow> 'n heap \<Rightarrow> 'n heap option" where
  "perform_all_at N fuel r [] h = Some h"
| "perform_all_at N fuel r (x # xs) h =
     (case call_at (perform N fuel x) r h of
        None \<Rightarrow> None
      | Some (e, h') \<Rightarrow> perform_all_at N fuel r xs h')"

text \<open>
  The addresses of the machine at \<open>r\<close> are in use; and two machines share no object.
\<close>

definition owned :: "'n heap \<Rightarrow> nat \<Rightarrow> bool" where
  "owned h r \<longleftrightarrow>
     r < allocated h \<and> dataStack_at (machine_objects h r) < allocated h \<and>
     returnStack_at (machine_objects h r) < allocated h \<and>
     dictionary_at (machine_objects h r) < allocated h"

definition separate :: "'n heap \<Rightarrow> nat \<Rightarrow> nat \<Rightarrow> bool" where
  "separate h r q \<longleftrightarrow>
     r \<noteq> q \<and>
     {dataStack_at (machine_objects h r), returnStack_at (machine_objects h r)} \<inter>
       {dataStack_at (machine_objects h q), returnStack_at (machine_objects h q)} = {} \<and>
     dictionary_at (machine_objects h r) \<noteq> dictionary_at (machine_objects h q)"

text \<open>
  The scenario: in an empty heap a machine is created and bootstrapped, \<open>run("5 3")\<close> is
  called on it, it is cloned, and \<open>run("+")\<close> is called on the clone. The result is the pair
  of the snapshots of the data stacks of the clone and of the original.
\<close>

definition empty_heap :: "'n heap" where
  "empty_heap =
     \<lparr>stack_objects = (\<lambda>a. new_Stack 0),
      dictionary_objects = (\<lambda>a. new_Dictionary),
      machine_objects = (\<lambda>a. \<lparr>dataStack_at = 0, returnStack_at = 0, dictionary_at = 0,
                                 tracing_field = False, trace_field = [],
                                 config_field = \<lparr>stackDepth = None, returnStackDepth = None\<rparr>\<rparr>),
      allocated = 0\<rparr>"

definition bootstrapped_heap :: "nat \<times> core_native heap" where
  "bootstrapped_heap =
     (case new_VM_at None empty_heap of (r, h) \<Rightarrow> (r, write_state bootstrapped r h))"

definition clone_scenario :: "nat \<Rightarrow> (StackValue list \<times> StackValue list) option" where
  "clone_scenario fuel =
     (case bootstrapped_heap of
        (r, h0) \<Rightarrow>
          (case call_at (run core fuel ''5 3'') r h0 of
             None \<Rightarrow> None
           | Some (e1, h1) \<Rightarrow>
               (case clone_at 3 r h1 of
                  (Inl e, h2) \<Rightarrow> None
                | (Inr r', h2) \<Rightarrow>
                    (case call_at (run core fuel ''+'') r' h2 of
                       None \<Rightarrow> None
                     | Some (e3, h3) \<Rightarrow>
                         Some (snapshot (dataStack (state_at h3 r')),
                               snapshot (dataStack (state_at h3 r)))))))"

section \<open>Properties of the stack\<close>

lemma stack_inv_new: "0 \<le> m \<Longrightarrow> stack_inv (new_Stack m)"
  by (simp add: stack_inv_def new_Stack_def)

lemma stack_inv_push: "stack_inv s \<Longrightarrow> stack_inv (snd (push v s))"
  by (simp add: stack_inv_def push_def)

lemma stack_inv_pop: "stack_inv s \<Longrightarrow> stack_inv (snd (pop s))"
  unfolding stack_inv_def pop_def by (cases "items s" rule: rev_cases) auto

lemma stack_inv_peek: "stack_inv s \<Longrightarrow> stack_inv (snd (peek s))"
  by (simp add: stack_inv_def peek_def)

lemma stack_inv_clear: "stack_inv s \<Longrightarrow> stack_inv (clear s)"
  by (simp add: stack_inv_def clear_def)

lemma push_all_ok:
  "int (length (items s) + length vs) \<le> maxDepth s \<Longrightarrow>
   push_all vs s = (Inr (), s\<lparr>items := items s @ vs\<rparr>)"
proof (induction vs arbitrary: s)
  case Nil
  then show ?case by simp
next
  case (Cons v vs)
  have room: "\<not> int (length (items s)) \<ge> maxDepth s"
    using Cons.prems by simp
  let ?s = "s\<lparr>items := items s @ [v]\<rparr>"
  have step: "push v s = (Inr (), ?s)"
    using room by (simp add: push_def)
  have "push_all vs ?s = (Inr (), ?s\<lparr>items := items ?s @ vs\<rparr>)"
    using Cons.prems by (intro Cons.IH) simp
  then show ?case
    using step by simp
qed

lemma pop_n_ok:
  "pop_n (length vs) (s\<lparr>items := base @ vs\<rparr>) = (Inr (rev vs), s\<lparr>items := base\<rparr>)"
proof (induction vs arbitrary: s rule: rev_induct)
  case Nil
  then show ?case by simp
next
  case (snoc v vs)
  have "pop (s\<lparr>items := base @ vs @ [v]\<rparr>) = (Inr v, s\<lparr>items := base @ vs\<rparr>)"
    by (simp add: pop_def butlast_append)
  then show ?case
    using snoc.IH [of s] by simp
qed

text \<open>
  C3. Pushing \<open>n \<le> maxDepth\<close> values onto a new stack succeeds and gives depth \<open>n\<close>;
  popping \<open>n\<close> times then returns the values in reverse push order and empties the stack.
  On a stack that satisfies the invariant \<open>length \<le> maxDepth\<close>, \<open>push\<close> throws
  StackOverflow exactly when the depth equals \<open>maxDepth\<close> and otherwise adds one to the
  depth; \<open>pop\<close> throws StackUnderflow exactly when the depth is 0 and otherwise returns the
  top value and takes one from the depth.
\<close>

theorem stack_lifo_and_bounds:
  assumes "stack_inv s"
  shows "(int (length vs) \<le> m \<longrightarrow>
           (\<exists>s1 s2. push_all vs (new_Stack m) = (Inr (), s1) \<and> depth s1 = length vs \<and>
              pop_n (length vs) s1 = (Inr (rev vs), s2) \<and> depth s2 = 0)) \<and>
         (fst (push v s) = Inl StackOverflowError \<longleftrightarrow> int (depth s) = maxDepth s) \<and>
         (int (depth s) \<noteq> maxDepth s \<longrightarrow>
           fst (push v s) = Inr () \<and> depth (snd (push v s)) = depth s + 1 \<and>
           snapshot (snd (push v s)) = snapshot s @ [v]) \<and>
         (fst (pop s) = Inl StackUnderflowError \<longleftrightarrow> depth s = 0) \<and>
         (depth s \<noteq> 0 \<longrightarrow>
           fst (pop s) = Inr (last (snapshot s)) \<and> depth (snd (pop s)) + 1 = depth s \<and>
           snapshot (snd (pop s)) = butlast (snapshot s))"
proof -
  have a: "int (length vs) \<le> m \<longrightarrow>
           (\<exists>s1 s2. push_all vs (new_Stack m) = (Inr (), s1) \<and> depth s1 = length vs \<and>
              pop_n (length vs) s1 = (Inr (rev vs), s2) \<and> depth s2 = 0)"
  proof
    assume le: "int (length vs) \<le> m"
    let ?s0 = "new_Stack m"
    have p: "push_all vs ?s0 = (Inr (), ?s0\<lparr>items := items ?s0 @ vs\<rparr>)"
      using le by (intro push_all_ok) (simp add: new_Stack_def)
    have q: "pop_n (length vs) (?s0\<lparr>items := [] @ vs\<rparr>) = (Inr (rev vs), ?s0\<lparr>items := []\<rparr>)"
      by (rule pop_n_ok)
    have e: "items ?s0 = []"
      by (simp add: new_Stack_def)
    show "\<exists>s1 s2. push_all vs ?s0 = (Inr (), s1) \<and> depth s1 = length vs \<and>
              pop_n (length vs) s1 = (Inr (rev vs), s2) \<and> depth s2 = 0"
      using p q e by (intro exI [of _ "?s0\<lparr>items := vs\<rparr>"] exI [of _ "?s0\<lparr>items := []\<rparr>"])
        (simp add: depth_def)
  qed
  have b: "fst (push v s) = Inl StackOverflowError \<longleftrightarrow> int (depth s) = maxDepth s"
    using assms by (auto simp: push_def depth_def stack_inv_def)
  have c: "int (depth s) \<noteq> maxDepth s \<longrightarrow>
           fst (push v s) = Inr () \<and> depth (snd (push v s)) = depth s + 1 \<and>
           snapshot (snd (push v s)) = snapshot s @ [v]"
    using assms by (auto simp: push_def depth_def stack_inv_def snapshot_def)
  have d: "fst (pop s) = Inl StackUnderflowError \<longleftrightarrow> depth s = 0"
    by (simp add: pop_def depth_def)
  have e: "depth s \<noteq> 0 \<longrightarrow>
           fst (pop s) = Inr (last (snapshot s)) \<and> depth (snd (pop s)) + 1 = depth s \<and>
           snapshot (snd (pop s)) = butlast (snapshot s)"
    by (auto simp: pop_def depth_def snapshot_def)
  from a b c d e show ?thesis by blast
qed

theorem stack_lifo_and_bounds_witness:
  "stack_inv \<lparr>items = [VBool True], maxDepth = 1\<rparr> \<and>
   push_all [VNum (Finite 5), VNum (Finite 3)] (new_Stack 2) =
     (Inr (), \<lparr>items = [VNum (Finite 5), VNum (Finite 3)], maxDepth = 2\<rparr>) \<and>
   pop_n 2 \<lparr>items = [VNum (Finite 5), VNum (Finite 3)], maxDepth = 2\<rparr> =
     (Inr [VNum (Finite 3), VNum (Finite 5)], \<lparr>items = [], maxDepth = 2\<rparr>) \<and>
   fst (push VNull \<lparr>items = [VBool True], maxDepth = 1\<rparr>) = Inl StackOverflowError \<and>
   fst (pop \<lparr>items = [VBool True], maxDepth = 1\<rparr>) = Inr (VBool True) \<and>
   depth (snd (pop \<lparr>items = [VBool True], maxDepth = 1\<rparr>)) = 0"
  using stack_lifo_and_bounds [of "\<lparr>items = [VBool True], maxDepth = 1\<rparr>"
      "[VNum (Finite 5), VNum (Finite 3)]" 2 VNull]
  by (simp add: stack_inv_def depth_def snapshot_def new_Stack_def push_def pop_def
      numeral_2_eq_2)

section \<open>Properties of the dictionary\<close>

lemma dict_inv_new: "dict_inv new_Dictionary"
  by (simp add: dict_inv_def new_Dictionary_def)

lemma name_with_metadata [simp]: "name (with_metadata m w) = name w"
  by (cases w) simp

lemma name_completeWord [simp]: "name (completeWord nm w now) = nm"
  by (simp add: completeWord_def)

lemma define_word_protected:
  "words d nm = Some e \<Longrightarrow> protected e \<Longrightarrow>
   define_word nm w now d = (Inl (Error (''Cannot redefine protected word: '' @ nm)), d)"
  by (simp add: define_word_def)

lemma define_word_existing:
  "words d nm = Some e \<Longrightarrow> \<not> protected e \<Longrightarrow>
   define_word nm w now d =
     (Inr (), d\<lparr>words := (words d)(nm \<mapsto>
        with_metadata (archive now e (metadata (completeWord nm w now))) (completeWord nm w now))\<rparr>)"
  by (simp add: define_word_def Let_def)

lemma define_word_fresh:
  "words d nm = None \<Longrightarrow>
   define_word nm w now d =
     (Inr (), d\<lparr>words := (words d)(nm \<mapsto> completeWord nm w now),
                 definitionOrder := definitionOrder d @ [nm]\<rparr>)"
  by (simp add: define_word_def Let_def)

lemma forget_protected:
  "words d nm = Some e \<Longrightarrow> protected e \<Longrightarrow>
   forget nm d = (Inl (Error (''Cannot forget protected word: '' @ nm)), d)"
  by (simp add: forget_def)

lemma dict_inv_define_word:
  assumes "dict_inv d"
  shows "dict_inv (snd (define_word nm w now d))"
proof (cases "words d nm")
  case None
  then have "nm \<notin> set (definitionOrder d)"
    using assms by (auto simp: dict_inv_def)
  then show ?thesis
    using assms None by (auto simp: define_word_fresh dict_inv_def)
next
  case (Some e)
  then have "nm \<in> set (definitionOrder d)"
    using assms by (auto simp: dict_inv_def)
  then have "insert nm (dom (words d)) = set (definitionOrder d)"
    using assms by (auto simp: dict_inv_def)
  then show ?thesis
    using assms Some
    by (cases "protected e") (auto simp: define_word_protected define_word_existing dict_inv_def)
qed


lemma attempts_define [simp]:
  "attempts nm (TryDefine w now # rest) d =
     (fst (define_word nm w now d) # fst (attempts nm rest (snd (define_word nm w now d))),
      snd (attempts nm rest (snd (define_word nm w now d))))"
  by (simp split: prod.splits)

lemma attempts_forget [simp]:
  "attempts nm (TryForget # rest) d =
     (fst (forget nm d) # fst (attempts nm rest (snd (forget nm d))),
      snd (attempts nm rest (snd (forget nm d))))"
  by (simp split: prod.splits)

declare attempts.simps(2,3) [simp del]





text \<open>
  C6. When a name is bound to a protected word, \<open>define\<close> (whatever the new word) and
  \<open>forget\<close> on that name throw and leave the dictionary, map and \<open>definitionOrder\<close>, as it
  was; so does every call of any sequence of such calls.
\<close>

theorem protected_word_immutable:
  assumes "words d nm = Some e" and "protected e"
  shows "define_word nm w now d = (Inl (Error (''Cannot redefine protected word: '' @ nm)), d) \<and>
         forget nm d = (Inl (Error (''Cannot forget protected word: '' @ nm)), d) \<and>
         snd (attempts nm ats d) = d \<and>
         length (fst (attempts nm ats d)) = length ats \<and>
         list_all isl (fst (attempts nm ats d))"
proof -
  have all: "snd (attempts nm ats d) = d \<and> length (fst (attempts nm ats d)) = length ats \<and>
             list_all isl (fst (attempts nm ats d))"
  proof (induction ats)
    case Nil
    then show ?case by simp
  next
    case (Cons a ats)
    then show ?case
      using assms
      by (cases a) (simp_all add: define_word_protected forget_protected)
  qed
  then show ?thesis
    using assms by (simp add: define_word_protected forget_protected)
qed

theorem protected_word_immutable_witness:
  "words (snd (define_word ''DUP'' (partial_of (DUP 0)) 1 new_Dictionary)) ''DUP'' = Some (DUP 0) \<and>
   protected (DUP 0) \<and>
   fst (define_word ''DUP'' (SQUARE 2) 3 (snd (define_word ''DUP'' (partial_of (DUP 0)) 1 new_Dictionary))) =
     Inl (Error ''Cannot redefine protected word: DUP'') \<and>
   fst (forget ''DUP'' (snd (define_word ''DUP'' (partial_of (DUP 0)) 1 new_Dictionary))) =
     Inl (Error ''Cannot forget protected word: DUP'') \<and>
   snd (attempts ''DUP'' [TryForget, TryDefine (SQUARE 2) 3, TryForget]
         (snd (define_word ''DUP'' (partial_of (DUP 0)) 1 new_Dictionary))) =
     snd (define_word ''DUP'' (partial_of (DUP 0)) 1 new_Dictionary)"
proof -
  let ?d = "snd (define_word ''DUP'' (partial_of (DUP 0)) 1 new_Dictionary)"
  have w: "words ?d ''DUP'' = Some (DUP 0)"
    by (simp add: define_word_def new_Dictionary_def completeWord_def partial_of_def DUP_def
        core_word_def)
  have p: "protected (DUP 0)"
    by (simp add: DUP_def core_word_def)
  show ?thesis
    using protected_word_immutable [OF w p, of "SQUARE 2" 3 "[TryForget, TryDefine (SQUARE 2) 3, TryForget]"]
      w p
    by simp
qed

section \<open>The JSON text of a body is read back\<close>

lemma digit_of_hex_digit: "k < 16 \<Longrightarrow> digit_of (hex_digit k) = Some k"
  by (auto simp: hex_digit_def digit_of_def Let_def)

lemma hex4_escape:
  assumes "n < 32"
  shows "hex4 (CHR ''0'') (CHR ''0'') (hex_digit (n div 16)) (hex_digit (n mod 16)) = Some (char_of n)"
proof -
  have a: "digit_of (hex_digit (n div 16)) = Some (n div 16)"
    using assms by (intro digit_of_hex_digit) simp
  have b: "digit_of (hex_digit (n mod 16)) = Some (n mod 16)"
    by (intro digit_of_hex_digit) simp
  have z: "digit_of (CHR ''0'') = Some 0"
    by (simp add: digit_of_def)
  have lt: "n div 16 * 16 + n mod 16 < 256"
    using assms by simp
  show ?thesis
    using lt by (simp add: hex4_def a b z)
qed

lemma char_of_code: "(of_char c :: nat) = n \<Longrightarrow> char_of n = c"
  by auto

lemma string_body_escape_char:
  assumes "string_body rest = Some (s, r)"
  shows "string_body (escape_char c @ rest) = Some (c # s, r)"
proof -
  consider (q) "c = dquote" | (b) "c = backslash"
    | (ctl) "c \<noteq> dquote" "c \<noteq> backslash" "(of_char c :: nat) < 32"
    | (plain) "c \<noteq> dquote" "c \<noteq> backslash" "\<not> (of_char c :: nat) < 32"
    by blast
  then show ?thesis
  proof cases
    case q
    then show ?thesis
      using assms by (simp add: escape_char_def unescape_char_def dquote_def backslash_def)
  next
    case b
    then show ?thesis
      using assms by (simp add: escape_char_def unescape_char_def dquote_def backslash_def)
  next
    case ctl
    show ?thesis
    proof (cases "(of_char c :: nat) \<in> {8, 9, 10, 12, 13}")
      case True
      then show ?thesis
        using assms ctl
        by (auto simp: escape_char_def unescape_char_def dquote_def backslash_def Let_def
            intro: char_of_code)
    next
      case False
      then show ?thesis
        using assms ctl hex4_escape [OF ctl(3)]
        by (auto simp: escape_char_def dquote_def backslash_def Let_def)
    qed
  next
    case plain
    then show ?thesis
      using assms by (simp add: escape_char_def Let_def)
  qed
qed

lemma string_body_escape:
  "string_body (concat (map escape_char s) @ dquote # r) = Some (s, r)"
  by (induction s) (simp_all add: string_body_escape_char)


lemma elements_quoted:
  "elements (json_quote t @ rest) =
     (case dropWhile json_space rest of
        [] \<Rightarrow> None
      | c # r2 \<Rightarrow>
          if c = CHR '','' then map_option (\<lambda>strs. t # strs) (elements (dropWhile json_space r2))
          else if c = CHR '']'' then (if dropWhile json_space r2 = [] then Some [t] else None)
          else None)"
proof -
  have "json_quote t @ rest = dquote # (concat (map escape_char t) @ dquote # rest)"
    by (simp add: json_quote_def)
  then show ?thesis
    by (subst elements.simps) (simp add: string_body_escape)
qed

lemma json_quote_starts: "\<exists>r. json_quote t = dquote # r"
  by (simp add: json_quote_def)

lemma elements_join:
  "ts \<noteq> [] \<Longrightarrow> elements (join_commas (map json_quote ts) @ [CHR '']'']) = Some ts"
proof (induction ts rule: list_nonempty_induct)
  case (single t)
  then show ?case
    by (simp add: elements_quoted json_space_def)
next
  case (cons t ts)
  obtain u us where ts: "ts = u # us"
    using cons.hyps by (cases ts) auto
  obtain r where r: "json_quote u = dquote # r"
    using json_quote_starts by blast
  have "join_commas (map json_quote (t # ts)) @ [CHR '']''] =
        json_quote t @ CHR '','' # (join_commas (map json_quote ts) @ [CHR '']''])"
    by (simp add: ts)
  moreover have "dropWhile json_space (join_commas (map json_quote ts) @ [CHR '']'']) =
        join_commas (map json_quote ts) @ [CHR '']'']"
    by (cases us) (simp_all add: ts r json_space_def dquote_def)
  ultimately show ?case
    using cons.IH by (simp add: elements_quoted json_space_def)
qed

lemma json_round_trip: "json_parse (json_stringify ts) = Some ts"
proof (cases ts)
  case Nil
  then show ?thesis
    by (simp add: json_parse_def json_stringify_def json_space_def)
next
  case (Cons t us)
  obtain r where r: "json_quote t = dquote # r"
    using json_quote_starts by blast
  have start: "\<exists>r1. join_commas (map json_quote ts) @ [CHR '']''] = dquote # r1"
    by (cases us) (simp_all add: Cons r)
  then obtain r1 where r1: "join_commas (map json_quote ts) @ [CHR '']''] = dquote # r1"
    by blast
  have "elements (dquote # r1) = Some ts"
    using elements_join [of ts] Cons r1 by simp
  then show ?thesis
    by (simp add: json_parse_def json_stringify_def r1 json_space_def dquote_def)
qed

lemma json_not_native: "json_stringify ts \<noteq> ''__NATIVE__''"
  by (simp add: json_stringify_def)

section \<open>Properties of execution\<close>

lemma execute_body_numeral:
  "\<not> isNaN (Number t) \<Longrightarrow>
   execute_body N fuel (t # ts) vm =
     (case push (VNum (Number t)) (dataStack vm) of
        (Inl e, s) \<Rightarrow> Some (Throws e (vm\<lparr>dataStack := s\<rparr>))
      | (Inr u, s) \<Rightarrow> execute_body N fuel ts (vm\<lparr>dataStack := s\<rparr>))"
  by (simp add: Let_def)

lemma execute_body_word:
  "isNaN (Number t) \<Longrightarrow>
   execute_body N fuel (t # ts) vm =
     (case execute N fuel (Inr t) vm of
        None \<Rightarrow> None
      | Some (Throws e vm') \<Rightarrow> Some (Throws e vm')
      | Some (Returns vm') \<Rightarrow> execute_body N fuel ts vm')"
  by (simp add: Let_def)

lemma run_tokens_numeral:
  "\<not> isNaN (Number t) \<Longrightarrow>
   run_tokens N fuel (t # ts) vm =
     (case push (VNum (Number t)) (dataStack vm) of
        (Inl e, s) \<Rightarrow> Some (Throws e (vm\<lparr>dataStack := s\<rparr>))
      | (Inr u, s) \<Rightarrow> run_tokens N fuel ts (vm\<lparr>dataStack := s\<rparr>))"
  by (simp add: Let_def)

lemma run_tokens_word:
  "isNaN (Number t) \<Longrightarrow>
   run_tokens N fuel (t # ts) vm =
     (case execute N fuel (Inr t) vm of
        None \<Rightarrow> None
      | Some (Throws e vm') \<Rightarrow> Some (Throws e vm')
      | Some (Returns vm') \<Rightarrow> run_tokens N fuel ts vm')"
  by (simp add: Let_def)

lemma fuel_Suc:
  "execute N fuel x vm = Some r \<Longrightarrow> execute N (Suc fuel) x vm = Some r"
  "execute_body N fuel ts vm = Some r \<Longrightarrow> execute_body N (Suc fuel) ts vm = Some r"
proof (induction N fuel x vm and N fuel ts vm arbitrary: r and r rule: execute_execute_body.induct)
  case (1 N wordOrName vm)
  then show ?case by simp
next
  case (2 N fuel wordOrName vm)
  then show ?case
    by (auto split: option.splits sum.splits WordBody.splits)
next
  case (3 N fuel vm)
  then show ?case by simp
next
  case (4 N fuel token tokens vm)
  show ?case
  proof (cases "isNaN (Number token)")
    case False
    obtain xa y where p: "push (VNum (Number token)) (dataStack vm) = (xa, y)"
      by fastforce
    show ?thesis
    proof (cases xa)
      case (Inl e)
      then show ?thesis
        using "4.prems" False p by (simp add: execute_body_numeral)
    next
      case (Inr b)
      have "execute_body N fuel tokens (vm\<lparr>dataStack := y\<rparr>) = Some r"
        using "4.prems" False p Inr by (simp add: execute_body_numeral)
      then have "execute_body N (Suc fuel) tokens (vm\<lparr>dataStack := y\<rparr>) = Some r"
        using "4.IH"(1) [OF refl False p [symmetric] Inr] by blast
      then show ?thesis
        using False p Inr by (simp add: execute_body_numeral)
    qed
  next
    case True
    then have nn: "\<not> \<not> isNaN (Number token)"
      by simp
    obtain x where x: "execute N fuel (Inr token) vm = Some x"
      using "4.prems" True by (auto simp: execute_body_word split: option.splits)
    have x': "execute N (Suc fuel) (Inr token) vm = Some x"
      using "4.IH"(2) [OF refl nn] x by blast
    show ?thesis
    proof (cases x)
      case (Returns v)
      have "execute_body N fuel tokens v = Some r"
        using "4.prems" True x Returns by (simp add: execute_body_word)
      then have "execute_body N (Suc fuel) tokens v = Some r"
        using "4.IH"(3) [OF refl nn x Returns] by blast
      then show ?thesis
        using True x' Returns by (simp add: execute_body_word del: execute.simps)
    next
      case (Throws e v)
      then show ?thesis
        using "4.prems" True x x' by (auto simp add: execute_body_word simp del: execute.simps)
    qed
  qed
qed

lemma execute_mono:
  "execute N fuel x vm = Some r \<Longrightarrow> execute N (fuel + k) x vm = Some r"
  by (induction k) (simp_all add: fuel_Suc(1) del: execute.simps)

lemma execute_body_mono:
  "execute_body N fuel ts vm = Some r \<Longrightarrow> execute_body N (fuel + k) ts vm = Some r"
  by (induction k) (simp_all add: fuel_Suc(2) del: execute_body.simps)

lemma run_tokens_Suc:
  "run_tokens N fuel ts vm = Some r \<Longrightarrow> run_tokens N (Suc fuel) ts vm = Some r"
proof (induction ts arbitrary: vm)
  case Nil
  then show ?case by simp
next
  case (Cons t ts)
  show ?case
  proof (cases "isNaN (Number t)")
    case False
    then show ?thesis
      using Cons by (auto simp: run_tokens_numeral split: prod.splits sum.splits)
  next
    case True
    then obtain x where x: "execute N fuel (Inr t) vm = Some x"
      using Cons.prems by (auto simp: run_tokens_word split: option.splits)
    then have x': "execute N (Suc fuel) (Inr t) vm = Some x"
      by (rule fuel_Suc)
    show ?thesis
    proof (cases x)
      case (Returns v)
      have "run_tokens N fuel ts v = Some r"
        using Cons.prems True x Returns by (simp add: run_tokens_word)
      then have "run_tokens N (Suc fuel) ts v = Some r"
        by (rule Cons.IH)
      then show ?thesis
        using True x' Returns by (simp add: run_tokens_word del: execute.simps)
    next
      case (Throws e v)
      then show ?thesis
        using Cons.prems True x x' by (auto simp add: run_tokens_word simp del: execute.simps)
    qed
  qed
qed

lemma run_mono: "run N fuel code vm = Some r \<Longrightarrow> run N (fuel + k) code vm = Some r"
  unfolding run_def by (induction k) (simp_all add: run_tokens_Suc)

section \<open>Properties of the bootstrap\<close>

lemma map_add_upd_left: "k \<notin> dom n \<Longrightarrow> m(k \<mapsto> v) ++ n = (m ++ n)(k \<mapsto> v)"
  by (rule ext) (auto simp: map_add_def split: option.splits)

lemma complete_partial_of: "completeWord (name w) (partial_of w) now = w"
  by (cases w) (simp add: completeWord_def partial_of_def)

lemma define_all_fresh:
  "distinct (map name ws) \<Longrightarrow> set (map name ws) \<inter> dom (words d) = {} \<Longrightarrow>
   define_all now ws d =
     (Inr (), d\<lparr>words := words d ++ map_of (map (\<lambda>w. (name w, w)) ws),
                 definitionOrder := definitionOrder d @ map name ws\<rparr>)"
proof (induction ws arbitrary: d)
  case Nil
  then show ?case by simp
next
  case (Cons w ws)
  have fresh: "words d (name w) = None"
    using Cons.prems by auto
  let ?d = "d\<lparr>words := (words d)(name w \<mapsto> w), definitionOrder := definitionOrder d @ [name w]\<rparr>"
  have step: "define_word (name w) (partial_of w) now d = (Inr (), ?d)"
    using fresh by (simp add: define_word_fresh complete_partial_of)
  have d1: "distinct (map name ws)" and nw: "name w \<notin> set (map name ws)"
    and dj: "set (map name ws) \<inter> dom (words d) = {}"
    using Cons.prems by auto
  have dj': "set (map name ws) \<inter> dom (words ?d) = {}"
    using nw dj by auto
  have "define_all now ws ?d =
     (Inr (), ?d\<lparr>words := words ?d ++ map_of (map (\<lambda>w. (name w, w)) ws),
                 definitionOrder := definitionOrder ?d @ map name ws\<rparr>)"
    using d1 dj' by (rule Cons.IH)
  moreover have "name w \<notin> dom (map_of (map (\<lambda>w. (name w, w)) ws))"
    using nw by (simp add: dom_map_of_conv_image_fst image_image)
  moreover have "words d ++ (\<lambda>a. if a = name w then Some w else M a) = (words d ++ M)(name w \<mapsto> w)"
    for M :: "string \<rightharpoonup> 'a Word"
    by (rule ext) (simp add: map_add_def)
  ultimately show ?case
    using step by (simp add: map_add_upd_left) (simp add: fun_upd_def)
qed

lemma core_names:
  "map name (CoreWords t0) =
     [''DUP'', ''DROP'', ''SWAP'', ''OVER'', ''ROT'', ''2DUP'', ''2DROP'', ''2SWAP'',
      ''+'', ''-'', ''*'', ''/'', ''MOD'', ''='', ''<'', ''>'', ''<='', ''>='']"
  by (simp add: CoreWords_def stackOps_def arithmeticOps_def core_word_def DUP_def DROP_def SWAP_def OVER_def ROT_def
      TWODUP_def TWODROP_def TWOSWAP_def ADD_def SUB_def MUL_def DIV_def MOD_def EQ_def LT_def
      GT_def LTE_def GTE_def)

lemma core_dictionary:
  "define_all now (CoreWords t0) new_Dictionary =
     (Inr (), \<lparr>words = map_of (map (\<lambda>w. (name w, w)) (CoreWords t0)),
               definitionOrder = map name (CoreWords t0)\<rparr>)"
proof -
  have "distinct (map name (CoreWords t0))"
    by (simp add: core_names)
  then show ?thesis
    by (simp add: define_all_fresh new_Dictionary_def)
qed

lemma dictionary_new_VM [simp]: "dictionary (new_VM cfg) = new_Dictionary"
  by (simp add: new_VM_def)

lemma bootstrap_default: "bootstrapVM (CoreWords 0) 1 None = Inr bootstrapped"
  by (simp add: bootstrapVM_def bootstrapped_def core_dictionary)

lemmas core_word_defs =
  CoreWords_def stackOps_def arithmeticOps_def core_word_def DUP_def DROP_def SWAP_def OVER_def
  ROT_def TWODUP_def TWODROP_def TWOSWAP_def ADD_def SUB_def MUL_def DIV_def MOD_def EQ_def LT_def
  GT_def LTE_def GTE_def

lemma bootstrapped_dictionary:
  "dictionary bootstrapped =
     \<lparr>words = map_of (map (\<lambda>w. (name w, w)) (CoreWords 0)),
      definitionOrder = map name (CoreWords 0)\<rparr>"
  by (simp add: bootstrapped_def core_dictionary)

lemma SQUARE_defined:
  "find ''SQUARE'' (dictionary (with_SQUARE bootstrapped)) =
     Some (Word ''SQUARE'' ''( n -- n*n )'' (Compiled [''DUP'', ''*'']) False False USER
            (WordMetadata 2 0 None None))"
  by (simp add: with_SQUARE_def bootstrapped_dictionary find_def define_word_def completeWord_def
      SQUARE_def core_word_defs)

lemma in_order_execute_body: "execute_body N fuel ts vm = in_order (dispatch N fuel) ts vm"
proof (induction ts arbitrary: vm)
  case Nil
  then show ?case by simp
next
  case (Cons t ts)
  show ?case
  proof (cases "isNaN (Number t)")
    case True
    then show ?thesis
      using Cons.IH
      by (simp add: execute_body_word dispatch_def split: option.splits outcome.splits)
  next
    case False
    then show ?thesis
      using Cons.IH
      by (simp add: execute_body_numeral dispatch_def split: prod.splits sum.splits)
  qed
qed

lemma in_order_run_tokens: "run_tokens N fuel ts vm = in_order (dispatch N fuel) ts vm"
proof (induction ts arbitrary: vm)
  case Nil
  then show ?case by simp
next
  case (Cons t ts)
  show ?case
  proof (cases "isNaN (Number t)")
    case True
    then show ?thesis
      using Cons.IH
      by (simp add: run_tokens_word dispatch_def split: option.splits outcome.splits)
  next
    case False
    then show ?thesis
      using Cons.IH
      by (simp add: run_tokens_numeral dispatch_def split: prod.splits sum.splits)
  qed
qed

lemma square_of_eight:
  "map_option thrown (run core 2 ''8 SQUARE'' (with_SQUARE bootstrapped)) = Some None"
  "stack_after (run core 2 ''8 SQUARE'' (with_SQUARE bootstrapped)) = Some [VNum (Finite 64)]"
  by code_simp+

text \<open>
  C4. Executing a word with a compiled body, given as a word or found by name, takes the
  tokens of the body in order, pushing the numeric value of every token that lexes as a
  numeral and executing every other token by name; \<open>run\<close> does the same to the tokens of
  \<open>parse\<close>. On a bootstrapped machine in which \<open>SQUARE\<close> is defined with the body
  \<open>["DUP", "*"]\<close>, \<open>run("8 SQUARE")\<close> returns and leaves 64 on the data stack, whenever the
  host allows two nested calls or more.
\<close>

theorem token_dispatch:
  "execute N (Suc fuel) (Inl (Word nm se (Compiled ts) im pr ca md)) vm =
     in_order (dispatch N fuel) ts vm \<and>
   (\<forall>w. find nm (dictionary vm) = Some w \<and> body w = Compiled ts \<longrightarrow>
      execute N (Suc fuel) (Inr nm) vm = in_order (dispatch N fuel) ts vm) \<and>
   run N fuel code vm = in_order (dispatch N fuel) (parse code) vm \<and>
   bootstrapVM (CoreWords 0) 1 None = Inr bootstrapped \<and>
   find ''SQUARE'' (dictionary (with_SQUARE bootstrapped)) =
     Some (Word ''SQUARE'' ''( n -- n*n )'' (Compiled [''DUP'', ''*'']) False False USER
            (WordMetadata 2 0 None None)) \<and>
   map_option thrown (run core (2 + k) ''8 SQUARE'' (with_SQUARE bootstrapped)) = Some None \<and>
   stack_after (run core (2 + k) ''8 SQUARE'' (with_SQUARE bootstrapped)) =
     Some [VNum (Finite 64)]"
proof -
  have a: "execute N (Suc fuel) (Inl (Word nm se (Compiled ts) im pr ca md)) vm =
     in_order (dispatch N fuel) ts vm"
    by (simp add: in_order_execute_body)
  have b: "\<forall>w. find nm (dictionary vm) = Some w \<and> body w = Compiled ts \<longrightarrow>
      execute N (Suc fuel) (Inr nm) vm = in_order (dispatch N fuel) ts vm"
    by (simp add: in_order_execute_body)
  have c: "run N fuel code vm = in_order (dispatch N fuel) (parse code) vm"
    by (simp add: run_def in_order_run_tokens)
  obtain r where r: "run core 2 ''8 SQUARE'' (with_SQUARE bootstrapped) = Some r"
    using square_of_eight(1) by auto
  have more: "run core (2 + k) ''8 SQUARE'' (with_SQUARE bootstrapped) = Some r"
    using r by (rule run_mono)
  have d: "map_option thrown (run core (2 + k) ''8 SQUARE'' (with_SQUARE bootstrapped)) = Some None"
    and e: "stack_after (run core (2 + k) ''8 SQUARE'' (with_SQUARE bootstrapped)) =
     Some [VNum (Finite 64)]"
    using square_of_eight r more by simp_all
  from a b c d e bootstrap_default SQUARE_defined show ?thesis
    by blast
qed

theorem token_dispatch_witness:
  "find ''SQUARE'' (dictionary (with_SQUARE bootstrapped)) =
     Some (Word ''SQUARE'' ''( n -- n*n )'' (Compiled [''DUP'', ''*'']) False False USER
            (WordMetadata 2 0 None None)) \<and>
   body (Word ''SQUARE'' ''( n -- n*n )'' (Compiled [''DUP'', ''*'']) False False USER
            (WordMetadata 2 0 None None) :: core_native Word) = Compiled [''DUP'', ''*''] \<and>
   execute core 2 (Inr ''SQUARE'') (with_SQUARE bootstrapped) =
     in_order (dispatch core 1) [''DUP'', ''*''] (with_SQUARE bootstrapped)"
  using token_dispatch [of core 1 "''SQUARE''" "''x''" "[''DUP'', ''*'']" False False USER
      "WordMetadata 0 0 None None" "with_SQUARE bootstrapped" "''''" 0] SQUARE_defined
  by (simp del: execute.simps add: numeral_2_eq_2)

lemma in_order_append:
  "in_order step (xs @ ys) vm =
     (case in_order step xs vm of
        None \<Rightarrow> None
      | Some (Throws e v) \<Rightarrow> Some (Throws e v)
      | Some (Returns v) \<Rightarrow> in_order step ys v)"
  by (induction xs arbitrary: vm) (simp_all split: option.splits outcome.splits)

lemma run_tokens_append:
  "run_tokens N fuel (xs @ ys) vm =
     (case run_tokens N fuel xs vm of
        None \<Rightarrow> None
      | Some (Throws e v) \<Rightarrow> Some (Throws e v)
      | Some (Returns v) \<Rightarrow> run_tokens N fuel ys v)"
  by (simp add: in_order_run_tokens in_order_append split: option.splits outcome.splits)

text \<open>
  C8. When the tokens of the source text before the k-th run to the end and the k-th token
  then throws, \<open>run\<close> throws that same exception and leaves the state that the failing
  token left, reached from the state after the earlier tokens: nothing is rolled back. When
  the failure is the lookup of the token itself (WordNotFound) or the push of a numeral
  (StackOverflow), that state is exactly the state just before the failing token.
\<close>

theorem failure_keeps_earlier_effects:
  assumes "k < length (parse code)"
    and "run_tokens N fuel (take k (parse code)) vm = Some (Returns vm1)"
    and "run_tokens N fuel [parse code ! k] vm1 = Some (Throws e vm2)"
  shows "run N fuel code vm = Some (Throws e vm2) \<and>
         (isNaN (Number (parse code ! k)) \<and> find (parse code ! k) (dictionary vm1) = None \<longrightarrow>
            e = WordNotFoundError (parse code ! k) \<and> vm2 = vm1) \<and>
         (\<not> isNaN (Number (parse code ! k)) \<longrightarrow> e = StackOverflowError \<and> vm2 = vm1)"
proof -
  let ?ts = "parse code"
  have split: "?ts = take k ?ts @ [?ts ! k] @ drop (Suc k) ?ts"
    using assms(1) by (simp add: id_take_nth_drop)
  have "run_tokens N fuel ?ts vm = run_tokens N fuel ([?ts ! k] @ drop (Suc k) ?ts) vm1"
    using assms(2) by (subst split, subst run_tokens_append) simp
  also have "\<dots> = Some (Throws e vm2)"
    using assms(3) by (subst run_tokens_append) simp
  finally have a: "run N fuel code vm = Some (Throws e vm2)"
    by (simp add: run_def)
  have b: "e = WordNotFoundError (?ts ! k) \<and> vm2 = vm1"
    if "isNaN (Number (?ts ! k))" and "find (?ts ! k) (dictionary vm1) = None"
  proof (cases fuel)
    case 0
    then show ?thesis
      using assms(3) that by (simp add: run_tokens_word)
  next
    case (Suc n)
    then show ?thesis
      using assms(3) that by (simp add: run_tokens_word)
  qed
  have c: "e = StackOverflowError \<and> vm2 = vm1" if "\<not> isNaN (Number (?ts ! k))"
    using assms(3) that
    by (auto simp: run_tokens_numeral push_def split: if_splits)
  from a b c show ?thesis
    by blast
qed

text \<open>
  A failing word keeps the effects it had before it failed: on a bootstrapped machine,
  \<open>run("5 SWAP")\<close> has the stack \<open>[5]\<close> before \<open>SWAP\<close>, and \<open>SWAP\<close> pops the 5 before its
  second pop throws StackUnderflow, so the stack afterwards is empty.
\<close>

theorem failing_token_effects_counterexample:
  "stack_after (run_tokens core 1 [''5''] bootstrapped) = Some [VNum (Finite 5)] \<and>
   map_option thrown (run core 1 ''5 SWAP'' bootstrapped) = Some (Some StackUnderflowError) \<and>
   stack_after (run core 1 ''5 SWAP'' bootstrapped) = Some []"
  by code_simp

lemma parse_5_FOO: "parse ''5 FOO 7'' = [''5'', ''FOO'', ''7'']"
  by code_simp

theorem failure_keeps_earlier_effects_witness:
  "(1::nat) < length (parse ''5 FOO 7'') \<and>
   run_tokens core 1 (take 1 (parse ''5 FOO 7'')) bootstrapped =
     Some (Returns (bootstrapped\<lparr>dataStack := \<lparr>items = [VNum (Finite 5)], maxDepth = 256\<rparr>\<rparr>)) \<and>
   run_tokens core 1 [parse ''5 FOO 7'' ! 1]
       (bootstrapped\<lparr>dataStack := \<lparr>items = [VNum (Finite 5)], maxDepth = 256\<rparr>\<rparr>) =
     Some (Throws (WordNotFoundError ''FOO'')
       (bootstrapped\<lparr>dataStack := \<lparr>items = [VNum (Finite 5)], maxDepth = 256\<rparr>\<rparr>)) \<and>
   run core 1 ''5 FOO 7'' bootstrapped =
     Some (Throws (WordNotFoundError ''FOO'')
       (bootstrapped\<lparr>dataStack := \<lparr>items = [VNum (Finite 5)], maxDepth = 256\<rparr>\<rparr>))"
proof -
  let ?vm1 = "bootstrapped\<lparr>dataStack := \<lparr>items = [VNum (Finite 5)], maxDepth = 256\<rparr>\<rparr>"
  have n5: "Number ''5'' = Finite 5"
    by code_simp
  have nf: "Number ''FOO'' = NaN"
    by code_simp
  have ds: "dataStack bootstrapped = \<lparr>items = [], maxDepth = 256\<rparr>"
    by (simp add: bootstrapped_def new_VM_def new_Stack_def)
  have a: "(1::nat) < length (parse ''5 FOO 7'')"
    by (simp add: parse_5_FOO)
  have b: "run_tokens core 1 (take 1 (parse ''5 FOO 7'')) bootstrapped = Some (Returns ?vm1)"
    by (simp add: parse_5_FOO n5 isNaN_def Let_def push_def ds)
  have nofoo: "find ''FOO'' (dictionary ?vm1) = None"
    by (simp add: bootstrapped_dictionary find_def core_word_defs)
  have c: "run_tokens core 1 [parse ''5 FOO 7'' ! 1] ?vm1 =
      Some (Throws (WordNotFoundError ''FOO'') ?vm1)"
    using nofoo by (simp add: parse_5_FOO nf isNaN_def Let_def)
  show ?thesis
    using failure_keeps_earlier_effects [OF a b c] a b c by simp
qed

lemma number_examples:
  "Number ''0x10'' = Finite 16" "Number ''1e3'' = Finite 1000" "Number ''-5'' = Finite (- 5)"
  "Number ''Infinity'' = PosInfinity"
  by code_simp+

lemma run_tokens_single_word:
  "isNaN (Number t) \<Longrightarrow> run_tokens N fuel [t] vm = execute N fuel (Inr t) vm"
  by (simp add: run_tokens_word split: option.splits outcome.splits)

lemma execute_body_single_word:
  "isNaN (Number t) \<Longrightarrow> execute_body N fuel [t] vm = execute N fuel (Inr t) vm"
  by (simp add: execute_body_word split: option.splits outcome.splits)

text \<open>
  C10. The numeral test of both loops is \<open>Number\<close>: a token whose conversion is not \<open>NaN\<close>
  is pushed as that number, with no access to the dictionary or to a native body, whatever
  the dictionary binds the token to; any other token is executed by name. \<open>Number\<close> accepts
  \<open>0x10\<close>, \<open>1e3\<close>, \<open>-5\<close> and \<open>Infinity\<close>. So \<open>run\<close> on a source text whose only token converts
  to a number pushes the number, also when a word of that name is defined.
\<close>

theorem numeral_test_is_Number:
  "(isNaN (Number t) \<longleftrightarrow> Number t = NaN) \<and>
   (\<not> isNaN (Number t) \<longrightarrow>
      run_tokens N fuel [t] vm =
        (case push (VNum (Number t)) (dataStack vm) of
           (Inl e, s) \<Rightarrow> Some (Throws e (vm\<lparr>dataStack := s\<rparr>))
         | (Inr u, s) \<Rightarrow> Some (Returns (vm\<lparr>dataStack := s\<rparr>))) \<and>
      execute_body N fuel [t] vm = run_tokens N fuel [t] vm \<and>
      (parse code = [t] \<longrightarrow> run N fuel code vm = run_tokens N fuel [t] vm) \<and>
      run_tokens N fuel [t] (vm\<lparr>dictionary := d\<rparr>) =
        map_option (\<lambda>r. case r of Returns v \<Rightarrow> Returns (v\<lparr>dictionary := d\<rparr>)
                             | Throws e v \<Rightarrow> Throws e (v\<lparr>dictionary := d\<rparr>))
          (run_tokens N' fuel' [t] vm)) \<and>
   (isNaN (Number t) \<longrightarrow>
      run_tokens N fuel [t] vm = execute N fuel (Inr t) vm \<and>
      execute_body N fuel [t] vm = execute N fuel (Inr t) vm) \<and>
   Number ''0x10'' = Finite 16 \<and> Number ''1e3'' = Finite 1000 \<and> Number ''-5'' = Finite (- 5) \<and>
   Number ''Infinity'' = PosInfinity"
proof -
  have a: "isNaN (Number t) \<longleftrightarrow> Number t = NaN"
    by (simp add: isNaN_def)
  have b: "run_tokens N fuel [t] vm =
        (case push (VNum (Number t)) (dataStack vm) of
           (Inl e, s) \<Rightarrow> Some (Throws e (vm\<lparr>dataStack := s\<rparr>))
         | (Inr u, s) \<Rightarrow> Some (Returns (vm\<lparr>dataStack := s\<rparr>)))"
    and c: "execute_body N fuel [t] vm = run_tokens N fuel [t] vm"
    and d: "parse code = [t] \<longrightarrow> run N fuel code vm = run_tokens N fuel [t] vm"
    and e: "run_tokens N fuel [t] (vm\<lparr>dictionary := d\<rparr>) =
        map_option (\<lambda>r. case r of Returns v \<Rightarrow> Returns (v\<lparr>dictionary := d\<rparr>)
                             | Throws e v \<Rightarrow> Throws e (v\<lparr>dictionary := d\<rparr>))
          (run_tokens N' fuel' [t] vm)"
    if "\<not> isNaN (Number t)"
    using that
    by (simp_all add: run_tokens_numeral execute_body_numeral run_def
        split: prod.splits sum.splits)
  have f: "run_tokens N fuel [t] vm = execute N fuel (Inr t) vm" if "isNaN (Number t)"
    using that by (rule run_tokens_single_word)
  have g: "execute_body N fuel [t] vm = execute N fuel (Inr t) vm" if "isNaN (Number t)"
    using that by (rule execute_body_single_word)
  from a b c d e f g number_examples show ?thesis
    by blast
qed


theorem numeral_test_is_Number_witness:
  "\<not> isNaN (Number ''0x10'') \<and>
   parse ''0x10'' = [''0x10''] \<and>
   find ''0x10'' (dictionary (bootstrapped\<lparr>dictionary :=
       snd (define_word ''0x10'' (SQUARE 2) 2 (dictionary bootstrapped))\<rparr>)) =
     Some (Word ''0x10'' ''( n -- n*n )'' (Compiled [''DUP'', ''*'']) False False USER
            (WordMetadata 2 0 None None)) \<and>
   run core 3 ''0x10'' (bootstrapped\<lparr>dictionary :=
       snd (define_word ''0x10'' (SQUARE 2) 2 (dictionary bootstrapped))\<rparr>) =
     Some (Returns (bootstrapped\<lparr>dictionary :=
       snd (define_word ''0x10'' (SQUARE 2) 2 (dictionary bootstrapped)),
       dataStack := \<lparr>items = [VNum (Finite 16)], maxDepth = 256\<rparr>\<rparr>))"
proof -
  let ?vm = "bootstrapped\<lparr>dictionary :=
       snd (define_word ''0x10'' (SQUARE 2) 2 (dictionary bootstrapped))\<rparr>"
  have n: "\<not> isNaN (Number ''0x10'')"
    by (simp add: number_examples isNaN_def)
  have p: "parse ''0x10'' = [''0x10'']"
    by code_simp
  have ds: "dataStack ?vm = \<lparr>items = [], maxDepth = 256\<rparr>"
    by (simp add: bootstrapped_def new_VM_def new_Stack_def)
  have w: "find ''0x10'' (dictionary ?vm) =
     Some (Word ''0x10'' ''( n -- n*n )'' (Compiled [''DUP'', ''*'']) False False USER
            (WordMetadata 2 0 None None))"
    by (simp add: bootstrapped_dictionary find_def define_word_def completeWord_def
        SQUARE_def core_word_defs)
  show ?thesis
    using numeral_test_is_Number [of "''0x10''" core 3 ?vm "''0x10''" "dictionary ?vm" core 3]
      n p w ds
    by (simp add: number_examples push_def)
qed

lemma found_words_filter:
  "found_words (filter (\<lambda>nm. case words d nm of None \<Rightarrow> False | Some word \<Rightarrow> P word) nms) d =
     Inr (map (\<lambda>nm. the (words d nm))
            (filter (\<lambda>nm. case words d nm of None \<Rightarrow> False | Some word \<Rightarrow> P word) nms))"
  by (induction nms) (auto simp: find_def split: option.splits)

lemma serialize_returns:
  "serialize now vm =
     (Inr \<lparr>st_version = ''0.1.0'', st_timestamp = now, st_stack = snapshot (dataStack vm),
           st_dictionary =
             map (\<lambda>nm. serialize_word (the (words (dictionary vm) nm)))
               (list_words (Some USER) (dictionary vm)),
           st_config = config vm\<rparr>, vm)"
  by (simp add: serialize_def list_words_def found_words_filter comp_def)

text \<open>
  C9. \<open>serialize\<close> returns a state and leaves the machine as it was: the snapshots of both
  stacks, the listing of the dictionary under every filter and the word found under every
  name are the same after the call as before it.
\<close>

theorem serialize_read_only:
  "snd (serialize now vm) = vm \<and>
   \<not> isl (fst (serialize now vm)) \<and>
   snapshot (dataStack (snd (serialize now vm))) = snapshot (dataStack vm) \<and>
   snapshot (returnStack (snd (serialize now vm))) = snapshot (returnStack vm) \<and>
   list_words flt (dictionary (snd (serialize now vm))) = list_words flt (dictionary vm) \<and>
   find nm (dictionary (snd (serialize now vm))) = find nm (dictionary vm)"
  by (simp add: serialize_returns)

section \<open>What the errors carry\<close>

text \<open>
  C7. What the errors carry. StackOverflow (thrown by \<open>push\<close>), StackUnderflow (thrown by
  \<open>pop\<close> and \<open>peek\<close>) and WordNotFound (thrown by \<open>execute\<close> for a name that is not
  defined) carry a message and a machine-readable \<open>type\<close>; WordNotFound also carries a
  context that names the offending word, and the two stack errors carry no context.
\<close>

theorem error_contents:
  "(fst (push v s) = Inl e \<longrightarrow>
      e = StackOverflowError \<and> error_type e = Some ''STACK_OVERFLOW'' \<and>
      message e = ''Stack overflow'' \<and> error_context e = None) \<and>
   (fst (pop s) = Inl e \<or> fst (peek s) = Inl e \<longrightarrow>
      e = StackUnderflowError \<and> error_type e = Some ''STACK_UNDERFLOW'' \<and>
      message e = ''Stack underflow'' \<and> error_context e = None) \<and>
   (find nm (dictionary vm) = None \<longrightarrow>
      execute N (Suc fuel) (Inr nm) vm = Some (Throws (WordNotFoundError nm) vm) \<and>
      error_type (WordNotFoundError nm) = Some ''WORD_NOT_FOUND'' \<and>
      message (WordNotFoundError nm) = ''Word not found: '' @ nm \<and>
      error_context (WordNotFoundError nm) = Some [(''word'', nm)])"
proof -
  have a: "fst (push v s) = Inl e \<longrightarrow>
      e = StackOverflowError \<and> error_type e = Some ''STACK_OVERFLOW'' \<and>
      message e = ''Stack overflow'' \<and> error_context e = None"
    by (auto simp: push_def StackOverflowError_def)
  have b: "fst (pop s) = Inl e \<or> fst (peek s) = Inl e \<longrightarrow>
      e = StackUnderflowError \<and> error_type e = Some ''STACK_UNDERFLOW'' \<and>
      message e = ''Stack underflow'' \<and> error_context e = None"
    by (auto simp: pop_def peek_def StackUnderflowError_def)
  have c: "find nm (dictionary vm) = None \<longrightarrow>
      execute N (Suc fuel) (Inr nm) vm = Some (Throws (WordNotFoundError nm) vm) \<and>
      error_type (WordNotFoundError nm) = Some ''WORD_NOT_FOUND'' \<and>
      message (WordNotFoundError nm) = ''Word not found: '' @ nm \<and>
      error_context (WordNotFoundError nm) = Some [(''word'', nm)]"
    by (simp add: WordNotFoundError_def)
  from a b c show ?thesis
    by blast
qed

text \<open>
  A full stack's StackOverflow has a \<open>type\<close> and no context; the error of redefining the
  protected word \<open>DUP\<close> of a bootstrapped machine is a plain \<open>Error\<close>, with a message and
  neither \<open>type\<close> nor context.
\<close>

theorem error_contents_counterexample:
  "fst (push VNull \<lparr>items = [VBool True], maxDepth = 1\<rparr>) = Inl StackOverflowError \<and>
   error_context StackOverflowError = None \<and>
   fst (define_word ''DUP'' (SQUARE 2) 2 (dictionary bootstrapped)) =
     Inl (Error ''Cannot redefine protected word: DUP'') \<and>
   error_type (Error ''Cannot redefine protected word: DUP'') = None \<and>
   error_context (Error ''Cannot redefine protected word: DUP'') = None"
  by (simp add: push_def StackOverflowError_def bootstrapped_dictionary define_word_def
      core_word_defs)


theorem error_contents_witness:
  "fst (push VNull \<lparr>items = [VBool True], maxDepth = 1\<rparr>) = Inl StackOverflowError \<and>
   error_type StackOverflowError = Some ''STACK_OVERFLOW'' \<and>
   fst (pop \<lparr>items = [], maxDepth = 1\<rparr>) = Inl StackUnderflowError \<and>
   error_type StackUnderflowError = Some ''STACK_UNDERFLOW'' \<and>
   find ''FOO'' (dictionary bootstrapped) = None \<and>
   execute core (Suc 0) (Inr ''FOO'') bootstrapped =
     Some (Throws (WordNotFoundError ''FOO'') bootstrapped) \<and>
   error_context (WordNotFoundError ''FOO'') = Some [(''word'', ''FOO'')]"
proof -
  have a: "fst (push VNull \<lparr>items = [VBool True], maxDepth = 1\<rparr>) = Inl StackOverflowError"
    by (simp add: push_def)
  have b: "fst (pop \<lparr>items = [], maxDepth = 1\<rparr>) = Inl StackUnderflowError"
    by (simp add: pop_def)
  have c: "find ''FOO'' (dictionary bootstrapped) = None"
    by (simp add: bootstrapped_dictionary find_def core_word_defs)
  have d: "error_type StackOverflowError = Some ''STACK_OVERFLOW''"
    using error_contents [of VNull "\<lparr>items = [VBool True], maxDepth = 1\<rparr>" StackOverflowError]
      a by blast
  have e: "error_type StackUnderflowError = Some ''STACK_UNDERFLOW''"
    using error_contents [of _ "\<lparr>items = [], maxDepth = 1\<rparr>" StackUnderflowError] b by blast
  have f: "execute core (Suc 0) (Inr ''FOO'') bootstrapped =
     Some (Throws (WordNotFoundError ''FOO'') bootstrapped) \<and>
     error_context (WordNotFoundError ''FOO'') = Some [(''word'', ''FOO'')]"
    using error_contents [of _ _ _ "''FOO''" bootstrapped core 0] c by blast
  from a b c d e f show ?thesis
    by blast
qed

section \<open>Serialization round trip\<close>

lemma completeWord_ignores_name: "completeWord nm (pw\<lparr>p_name := x\<rparr>) now = completeWord nm pw now"
  by (simp add: completeWord_def)

lemma define_word_ignores_name: "define_word nm (pw\<lparr>p_name := x\<rparr>) now d = define_word nm pw now d"
  unfolding define_word_def completeWord_ignores_name by (rule refl)

lemma serialize_word_native: "\<not> compiled w \<Longrightarrow> s_body (serialize_word w) = ''__NATIVE__''"
  by (auto simp: compiled_def serialize_word_def split: WordBody.splits)

lemma restore_words_define_all:
  "restore_words now (map serialize_word ws) vm =
     (case define_all now (map restored (filter compiled ws)) (dictionary vm) of
        (Inl e, d) \<Rightarrow> Some (Throws e (vm\<lparr>dictionary := d\<rparr>))
      | (Inr u, d) \<Rightarrow> Some (Returns (vm\<lparr>dictionary := d\<rparr>)))"
proof (induction ws arbitrary: vm)
  case Nil
  then show ?case by simp
next
  case (Cons w ws)
  show ?case
  proof (cases "body w")
    case (Native f)
    then have "\<not> compiled w"
      by (simp add: compiled_def)
    then show ?thesis
      using Cons.IH by (simp add: serialize_word_native)
  next
    case (Compiled ts)
    then have c: "compiled w"
      by (simp add: compiled_def)
    have b: "s_body (serialize_word w) = json_stringify ts"
      using Compiled by (simp add: serialize_word_def)
    have pw: "\<lparr>p_name = None, p_stackEffect = Some (s_stackEffect (serialize_word w)),
               p_body = Some (Compiled ts), p_immediate = Some (s_immediate (serialize_word w)),
               p_protected = Some False, p_category = Some USER,
               p_metadata = Some (s_metadata (serialize_word w))\<rparr> =
              (partial_of (restored w))\<lparr>p_name := None\<rparr>"
      using Compiled by (simp add: partial_of_def restored_def serialize_word_def)
    have nm: "s_name (serialize_word w) = name (restored w)"
      by (simp add: serialize_word_def restored_def)
    show ?thesis
      using Cons.IH c
      by (simp add: b json_round_trip json_not_native pw nm define_word_ignores_name
          split: prod.splits sum.splits)
  qed
qed

lemma dict_inv_define_all: "dict_inv d \<Longrightarrow> dict_inv (snd (define_all now ws d))"
proof (induction ws arbitrary: d)
  case Nil
  then show ?case by simp
next
  case (Cons w ws)
  have "dict_inv (snd (define_word (name w) (partial_of w) now d))"
    using Cons.prems by (rule dict_inv_define_word)
  then show ?case
    using Cons.IH Cons.prems by (auto split: prod.splits sum.splits)
qed

lemma dict_inv_bootstrapped: "dict_inv (dictionary bootstrapped)"
  by (simp add: bootstrapped_def dict_inv_define_all dict_inv_new)

lemma dict_inv_with_SQUARE: "dict_inv (dictionary (with_SQUARE bootstrapped))"
  by (simp add: with_SQUARE_def dict_inv_define_word dict_inv_bootstrapped)

lemma bootstrap_small: "bootstrapVM (CoreWords 0) 1 (Some small_config) = Inr small_bootstrapped"
  by (simp add: bootstrapVM_def small_bootstrapped_def core_dictionary)

lemma user_words_listed:
  assumes "dict_inv d"
  shows "nm \<in> set (list_words (Some USER) d) \<longleftrightarrow> (\<exists>w. words d nm = Some w \<and> category w = USER)"
  using assms by (auto simp: list_words_def dict_inv_def split: option.splits)

lemma user_words_distinct: "dict_inv d \<Longrightarrow> distinct (list_words (Some USER) d)"
  by (simp add: list_words_def dict_inv_def)

lemma map_of_restored:
  assumes "distinct (map name ws)"
  shows "map_of (map (\<lambda>w. (name w, w)) (map restored (filter compiled ws))) nm =
     (case List.find (\<lambda>w. name w = nm) ws of
        None \<Rightarrow> None
      | Some w \<Rightarrow> if compiled w then Some (restored w) else None)"
  using assms
proof (induction ws)
  case Nil
  then show ?case by simp
next
  case (Cons w ws)
  have nr: "name (restored w) = name w" for w :: "'a Word"
    by (simp add: restored_def)
  have absent: "map_of (map (\<lambda>w. (name w, w)) (map restored (filter compiled ws))) (name w) = None"
  proof -
    have "name w \<notin> name ` set ws"
      using Cons.prems by auto
    then have "name w \<notin> fst ` set (map (\<lambda>w. (name w, w)) (map restored (filter compiled ws)))"
      by (auto simp: nr)
    then show ?thesis
      by (simp add: map_of_eq_None_iff)
  qed
  show ?case
    using Cons absent by (auto simp: nr)
qed


lemma find_in_listed:
  assumes "\<forall>k \<in> set ks. name (f k) = k"
  shows "List.find (\<lambda>w. name w = nm) (map f ks) = (if nm \<in> set ks then Some (f nm) else None)"
  using assms by (induction ks) auto

lemma serialized_user_words:
  assumes "dict_inv d"
  defines "ws \<equiv> map (\<lambda>nm. the (words d nm)) (list_words (Some USER) d)"
  shows "map name ws = list_words (Some USER) d"
    and "distinct (map name ws)"
    and "List.find (\<lambda>w. name w = nm) ws =
           (case words d nm of
              None \<Rightarrow> None
            | Some w \<Rightarrow> if category w = USER then Some w else None)"
    and "\<forall>w \<in> set ws. words d (name w) = Some w \<and> category w = USER"
proof -
  have key: "\<forall>k \<in> set (list_words (Some USER) d). \<exists>w. words d k = Some w \<and> category w = USER \<and> name w = k"
    using assms(1) by (auto simp: user_words_listed dict_inv_def)
  then have nm_the: "\<forall>k \<in> set (list_words (Some USER) d). name (the (words d k)) = k"
    by auto
  show names: "map name ws = list_words (Some USER) d"
    unfolding ws_def using nm_the by (simp add: map_idI)
  show "distinct (map name ws)"
    using names assms(1) by (simp add: user_words_distinct)
  show "List.find (\<lambda>w. name w = nm) ws =
           (case words d nm of
              None \<Rightarrow> None
            | Some w \<Rightarrow> if category w = USER then Some w else None)"
    unfolding ws_def using find_in_listed [OF nm_the, of nm] assms(1)
    by (auto simp: user_words_listed split: option.splits)
  show "\<forall>w \<in> set ws. words d (name w) = Some w \<and> category w = USER"
    unfolding ws_def using key by auto
qed

text \<open>
  C1. Let the source's dictionary satisfy its invariant, let the target's data stack have
  room for the source's values, and let no user word of the source with a compiled body
  have a name that is defined in the target (in a freshly bootstrapped target: the name of a
  core word). Then \<open>serialize\<close> returns a state, \<open>deserialize\<close> of that state on the target
  returns, the target's data stack then equals the source's, every user word of the source
  with a compiled body is found in the target under its name with the same name, stack
  effect, body, immediate flag and metadata (unprotected, of category USER), and a user word
  with a native body is skipped without an error: the target's entry for its name, like
  that for every name that is no user word of the source, is as before.
\<close>

theorem serialize_deserialize_round_trip:
  assumes "dict_inv (dictionary source)"
    and "int (length (snapshot (dataStack source))) \<le> maxDepth (dataStack target)"
    and "\<forall>nm w. find nm (dictionary source) = Some w \<and> category w = USER \<and> compiled w \<longrightarrow>
           find nm (dictionary target) = None"
  shows "\<exists>state target'.
           serialize now source = (Inr state, source) \<and>
           deserialize now' state target = Some (Returns target') \<and>
           snapshot (dataStack target') = snapshot (dataStack source) \<and>
           (\<forall>nm w. find nm (dictionary source) = Some w \<and> category w = USER \<longrightarrow>
              find nm (dictionary target') =
                (case body w of
                   Compiled ts \<Rightarrow>
                     Some (Word nm (stackEffect w) (Compiled ts) (immediate w) False USER
                            (metadata w))
                 | Native f \<Rightarrow> find nm (dictionary target))) \<and>
           (\<forall>nm. (\<forall>w. find nm (dictionary source) = Some w \<longrightarrow> category w \<noteq> USER) \<longrightarrow>
              find nm (dictionary target') = find nm (dictionary target))"
proof -
  let ?d = "dictionary source"
  define ws where "ws = map (\<lambda>nm. the (words ?d nm)) (list_words (Some USER) ?d)"
  define rs where "rs = map restored (filter compiled ws)"
  define state where "state = \<lparr>st_version = ''0.1.0'', st_timestamp = now,
      st_stack = snapshot (dataStack source), st_dictionary = map serialize_word ws,
      st_config = config source\<rparr>"
  define stack where
    "stack = \<lparr>items = snapshot (dataStack source), maxDepth = maxDepth (dataStack target)\<rparr>"
  define dict where "dict = (dictionary target)\<lparr>
      words := words (dictionary target) ++ map_of (map (\<lambda>w. (name w, w)) rs),
      definitionOrder := definitionOrder (dictionary target) @ map name rs\<rparr>"
  define target' where "target' = target\<lparr>dataStack := stack, dictionary := dict\<rparr>"
  note uw = serialized_user_words [OF assms(1), folded ws_def]
  have ser: "serialize now source = (Inr state, source)"
    by (simp add: serialize_returns state_def ws_def comp_def)
  have nr: "map name rs = map name (filter compiled ws)"
    by (simp add: rs_def restored_def comp_def)
  have dist: "distinct (map name rs)"
    unfolding nr using uw(2) by (rule distinct_map_filter)
  have fresh: "set (map name rs) \<inter> dom (words (dictionary target)) = {}"
  proof -
    have "words (dictionary target) (name w) = None" if "w \<in> set ws" "compiled w" for w
      using that uw(4) assms(3) by (auto simp: find_def)
    then show ?thesis
      unfolding nr by auto
  qed
  have defs: "define_all now' rs (dictionary target) = (Inr (), dict)"
    unfolding dict_def using dist fresh by (rule define_all_fresh)
  have pushes: "push_all (snapshot (dataStack source)) (clear (dataStack target)) = (Inr (), stack)"
    using push_all_ok [of "clear (dataStack target)" "snapshot (dataStack source)"] assms(2)
    by (simp add: clear_def stack_def)
  have res: "restore_words now' (map serialize_word ws) (target\<lparr>dataStack := stack\<rparr>) =
      Some (Returns target')"
    using defs by (simp add: restore_words_define_all rs_def [symmetric] target'_def)
  have des: "deserialize now' state target = Some (Returns target')"
    by (simp add: deserialize_def pushes res state_def)
  have stack: "snapshot (dataStack target') = snapshot (dataStack source)"
    by (simp add: snapshot_def target'_def stack_def)
  have M: "map_of (map (\<lambda>w. (name w, w)) rs) nm =
      (case words ?d nm of
         None \<Rightarrow> None
       | Some w \<Rightarrow> if category w = USER \<and> compiled w then Some (restored w) else None)" for nm
    unfolding rs_def map_of_restored [OF uw(2)] uw(3) by (simp split: option.splits)
  have look: "find nm (dictionary target') =
      (case words ?d nm of
         None \<Rightarrow> find nm (dictionary target)
       | Some w \<Rightarrow> if category w = USER \<and> compiled w then Some (restored w)
                   else find nm (dictionary target))" for nm
    by (simp add: target'_def dict_def find_def map_add_def M split: option.splits)
  have user: "find nm (dictionary target') =
                (case body w of
                   Compiled ts \<Rightarrow>
                     Some (Word nm (stackEffect w) (Compiled ts) (immediate w) False USER
                            (metadata w))
                 | Native f \<Rightarrow> find nm (dictionary target))"
    if "find nm (dictionary source) = Some w" "category w = USER" for nm w
  proof -
    have "name w = nm"
      using that(1) assms(1) by (simp add: dict_inv_def find_def)
    moreover have "words ?d nm = Some w"
      using that(1) by (simp add: find_def)
    ultimately show ?thesis
      using that(2) by (simp add: look compiled_def restored_def split: WordBody.splits)
  qed
  have other: "find nm (dictionary target') = find nm (dictionary target)"
    if "\<forall>w. find nm (dictionary source) = Some w \<longrightarrow> category w \<noteq> USER" for nm
    using that look [of nm] by (auto simp: find_def split: option.splits)
  from ser des stack user other show ?thesis
    by blast
qed

text \<open>
  Two round trips that fail. The state of a bootstrapped machine holding \<open>[1, 2]\<close> is
  restored on a machine bootstrapped with a data stack of capacity 1: the second push
  throws StackOverflow and the target holds \<open>[1]\<close>. The state of a machine that was not
  bootstrapped, with a user word named \<open>DUP\<close> and the stack \<open>[1]\<close>, is restored on a machine
  bootstrapped by default: \<open>define\<close> throws, and \<open>DUP\<close> is still the core word.
\<close>

theorem round_trip_counterexample:
  "bootstrapVM (CoreWords 0) 1 (Some small_config) = Inr small_bootstrapped \<and>
   map_option thrown
     (round_trip 8 9 (pushed (VNum (Finite 2)) (pushed (VNum (Finite 1)) bootstrapped))
        small_bootstrapped) = Some (Some StackOverflowError) \<and>
   stack_after
     (round_trip 8 9 (pushed (VNum (Finite 2)) (pushed (VNum (Finite 1)) bootstrapped))
        small_bootstrapped) = Some [VNum (Finite 1)] \<and>
   list_words (Some USER) (dictionary (pushed (VNum (Finite 1)) user_DUP)) = [''DUP''] \<and>
   map_option compiled (find ''DUP'' (dictionary (pushed (VNum (Finite 1)) user_DUP))) = Some True \<and>
   map_option thrown (round_trip 8 9 (pushed (VNum (Finite 1)) user_DUP) bootstrapped) =
     Some (Some (Error ''Cannot redefine protected word: DUP'')) \<and>
   map_option (\<lambda>r. map_option category (find ''DUP'' (dictionary (state_of r))))
     (round_trip 8 9 (pushed (VNum (Finite 1)) user_DUP) bootstrapped) = Some (Some CORE)"
proof -
  have a: "map_option thrown
     (round_trip 8 9 (pushed (VNum (Finite 2)) (pushed (VNum (Finite 1)) bootstrapped))
        small_bootstrapped) = Some (Some StackOverflowError)"
    by code_simp
  have b: "stack_after
     (round_trip 8 9 (pushed (VNum (Finite 2)) (pushed (VNum (Finite 1)) bootstrapped))
        small_bootstrapped) = Some [VNum (Finite 1)]"
    by code_simp
  have c: "list_words (Some USER) (dictionary (pushed (VNum (Finite 1)) user_DUP)) = [''DUP'']"
    by code_simp
  have d: "map_option compiled (find ''DUP'' (dictionary (pushed (VNum (Finite 1)) user_DUP))) =
     Some True"
    by code_simp
  have e: "map_option thrown (round_trip 8 9 (pushed (VNum (Finite 1)) user_DUP) bootstrapped) =
     Some (Some (Error ''Cannot redefine protected word: DUP''))"
    by code_simp
  have f: "map_option (\<lambda>r. map_option category (find ''DUP'' (dictionary (state_of r))))
     (round_trip 8 9 (pushed (VNum (Finite 1)) user_DUP) bootstrapped) = Some (Some CORE)"
    by code_simp
  from bootstrap_small a b c d e f show ?thesis
    by blast
qed

lemma user_words_with_SQUARE:
  "list_words (Some USER) (dictionary (with_SQUARE bootstrapped)) = [''SQUARE'']"
  by code_simp

theorem serialize_deserialize_round_trip_witness:
  "dict_inv (dictionary (pushed (VNum (Finite 1)) (with_SQUARE bootstrapped))) \<and>
   int (length (snapshot (dataStack (pushed (VNum (Finite 1)) (with_SQUARE bootstrapped))))) \<le>
     maxDepth (dataStack bootstrapped) \<and>
   list_words (Some USER) (dictionary (pushed (VNum (Finite 1)) (with_SQUARE bootstrapped))) =
     [''SQUARE''] \<and>
   find ''SQUARE'' (dictionary bootstrapped) = None \<and>
   stack_after (round_trip 8 9 (pushed (VNum (Finite 1)) (with_SQUARE bootstrapped)) bootstrapped) =
     Some [VNum (Finite 1)] \<and>
   map_option (\<lambda>r. find ''SQUARE'' (dictionary (state_of r)))
     (round_trip 8 9 (pushed (VNum (Finite 1)) (with_SQUARE bootstrapped)) bootstrapped) =
     Some (Some (Word ''SQUARE'' ''( n -- n*n )'' (Compiled [''DUP'', ''*'']) False False USER
                  (WordMetadata 2 0 None None)))"
proof -
  let ?src = "pushed (VNum (Finite 1)) (with_SQUARE bootstrapped)"
  have dsrc: "dictionary ?src = dictionary (with_SQUARE bootstrapped)"
    by (simp add: pushed_def)
  have inv: "dict_inv (dictionary ?src)"
    by (simp add: dsrc dict_inv_with_SQUARE)
  have room: "int (length (snapshot (dataStack ?src))) \<le> maxDepth (dataStack bootstrapped)"
    by (simp add: pushed_def push_def with_SQUARE_def bootstrapped_def new_VM_def new_Stack_def
        snapshot_def)
  have users: "list_words (Some USER) (dictionary ?src) = [''SQUARE'']"
    by (simp add: dsrc user_words_with_SQUARE)
  have nosq: "find ''SQUARE'' (dictionary bootstrapped) = None"
    by (simp add: bootstrapped_dictionary find_def core_word_defs)
  have free: "\<forall>nm w. find nm (dictionary ?src) = Some w \<and> category w = USER \<and> compiled w \<longrightarrow>
           find nm (dictionary bootstrapped) = None"
  proof (intro allI impI)
    fix nm w
    assume h: "find nm (dictionary ?src) = Some w \<and> category w = USER \<and> compiled w"
    then have "nm \<in> set (list_words (Some USER) (dictionary ?src))"
      using inv by (auto simp: user_words_listed find_def)
    then have "nm = ''SQUARE''"
      by (simp add: users)
    then show "find nm (dictionary bootstrapped) = None"
      by (simp add: nosq)
  qed
  have sq: "find ''SQUARE'' (dictionary ?src) =
     Some (Word ''SQUARE'' ''( n -- n*n )'' (Compiled [''DUP'', ''*'']) False False USER
            (WordMetadata 2 0 None None))"
    by (simp add: dsrc SQUARE_defined)
  obtain state target' where
    ser: "serialize 8 ?src = (Inr state, ?src)" and
    des: "deserialize 9 state bootstrapped = Some (Returns target')" and
    st: "snapshot (dataStack target') = snapshot (dataStack ?src)" and
    us: "\<forall>nm w. find nm (dictionary ?src) = Some w \<and> category w = USER \<longrightarrow>
              find nm (dictionary target') =
                (case body w of
                   Compiled ts \<Rightarrow>
                     Some (Word nm (stackEffect w) (Compiled ts) (immediate w) False USER
                            (metadata w))
                 | Native f \<Rightarrow> find nm (dictionary bootstrapped))"
    using serialize_deserialize_round_trip [OF inv room free, of 8 9] by blast
  have rt: "round_trip 8 9 ?src bootstrapped = Some (Returns target')"
    by (simp add: round_trip_def ser des)
  have s1: "stack_after (round_trip 8 9 ?src bootstrapped) = Some [VNum (Finite 1)]"
    by (simp add: rt stack_after_def st)
      (simp add: pushed_def push_def with_SQUARE_def bootstrapped_def new_VM_def new_Stack_def
        snapshot_def)
  have s2: "map_option (\<lambda>r. find ''SQUARE'' (dictionary (state_of r)))
     (round_trip 8 9 ?src bootstrapped) =
     Some (Some (Word ''SQUARE'' ''( n -- n*n )'' (Compiled [''DUP'', ''*'']) False False USER
                  (WordMetadata 2 0 None None)))"
    using us [rule_format, of "''SQUARE''"
        "Word ''SQUARE'' ''( n -- n*n )'' (Compiled [''DUP'', ''*'']) False False USER
           (WordMetadata 2 0 None None)"] sq
    by (simp add: rt)
  from inv room users nosq s1 s2 show ?thesis
    by blast
qed

section \<open>Cloning\<close>

text \<open>
  On a well-formed machine the loops of \<open>clone\<close> do not throw: the names of the dictionary
  are distinct, so every \<open>define\<close> on the new dictionary adds a new word, and the new stacks
  have the capacity of the old ones. The clone differs from the original in its tracing
  flag and its trace only.
\<close>

lemma copy_words_define_all:
  assumes "\<forall>nm \<in> set nms. \<exists>w. words src nm = Some w"
    and "\<forall>nm \<in> set nms. name (the (words src nm)) = nm"
  shows "copy_words now nms src dst =
           (case define_all now (map (\<lambda>nm. the (words src nm)) nms) dst of
              (Inl e, d) \<Rightarrow> (Inl e, d)
            | (Inr u, d) \<Rightarrow> (Inr (), d))"
  using assms
proof (induction nms arbitrary: dst)
  case Nil
  then show ?case by simp
next
  case (Cons nm nms)
  obtain w where w: "words src nm = Some w" and n: "name w = nm"
    using Cons.prems by auto
  have ih: "copy_words now nms src d' =
           (case define_all now (map (\<lambda>nm. the (words src nm)) nms) d' of
              (Inl e, d) \<Rightarrow> (Inl e, d)
            | (Inr u, d) \<Rightarrow> (Inr (), d))" for d'
    using Cons.prems by (intro Cons.IH) auto
  show ?case
    using w n by (simp add: find_def ih split: prod.splits sum.splits)
qed

lemma map_of_listed:
  "map_of (map (\<lambda>nm. (nm, f nm)) nms) = (\<lambda>k. if k \<in> set nms then Some (f k) else None)"
  by (induction nms) auto

lemma copy_words_all:
  fixes d :: "'n Dictionary"
  assumes "dict_inv d"
  shows "copy_words now (definitionOrder d) d new_Dictionary = (Inr (), d)"
proof -
  let ?ws = "map (\<lambda>nm. the (words d nm)) (definitionOrder d)"
  have ex: "\<forall>nm \<in> set (definitionOrder d). \<exists>w. words d nm = Some w"
    using assms by (auto simp: dict_inv_def)
  have nm: "\<forall>nm \<in> set (definitionOrder d). name (the (words d nm)) = nm"
    using assms by (auto simp: dict_inv_def)
  have names: "map name ?ws = definitionOrder d"
    using nm by (simp add: map_idI)
  have pairs: "map (\<lambda>w. (name w, w)) ?ws = map (\<lambda>k. (k, the (words d k))) (definitionOrder d)"
    using nm by simp
  have dist: "distinct (map name ?ws)"
    using assms names by (simp add: dict_inv_def)
  let ?nd = "new_Dictionary :: 'n Dictionary"
  have fresh: "set (map name ?ws) \<inter> dom (words ?nd) = {}"
    by (simp add: new_Dictionary_def)
  have all: "define_all now ?ws ?nd =
     (Inr (), ?nd\<lparr>words := words ?nd ++ map_of (map (\<lambda>w. (name w, w)) ?ws),
                 definitionOrder := definitionOrder ?nd @ map name ?ws\<rparr>)"
    using dist fresh by (rule define_all_fresh)
  have m: "map_of (map (\<lambda>k. (k, the (words d k))) (definitionOrder d)) = words d"
    unfolding map_of_listed using assms by (intro ext) (auto simp: dict_inv_def domIff)
  have "?nd\<lparr>words := words ?nd ++ map_of (map (\<lambda>w. (name w, w)) ?ws),
                 definitionOrder := definitionOrder ?nd @ map name ?ws\<rparr> = d"
    unfolding pairs m names by (simp add: new_Dictionary_def)
  then show ?thesis
    using all by (simp add: copy_words_define_all [OF ex nm] del: map_map)
qed

lemma push_all_new_Stack:
  "stack_inv s \<Longrightarrow> push_all (snapshot s) (new_Stack (maxDepth s)) = (Inr (), s)"
  using push_all_ok [of "new_Stack (maxDepth s)" "snapshot s"]
  by (simp add: stack_inv_def new_Stack_def snapshot_def)

lemma clone_value:
  assumes "vm_inv vm"
  shows "clone now vm = (Inr (vm\<lparr>tracing := False, trace := []\<rparr>), vm)"
proof -
  have d: "copy_words now (list_words None (dictionary vm)) (dictionary vm)
             (dictionary (new_VM (Some (config vm)))) = (Inr (), dictionary vm)"
    using assms by (simp add: vm_inv_def list_words_def copy_words_all)
  have ds: "push_all (snapshot (dataStack vm)) (dataStack (new_VM (Some (config vm)))) =
      (Inr (), dataStack vm)"
    using assms push_all_new_Stack [of "dataStack vm"] by (simp add: vm_inv_def new_VM_def)
  have rs: "push_all (snapshot (returnStack vm)) (returnStack (new_VM (Some (config vm)))) =
      (Inr (), returnStack vm)"
    using assms push_all_new_Stack [of "returnStack vm"] by (simp add: vm_inv_def new_VM_def)
  have eq: "(new_VM (Some (config vm)))\<lparr>dictionary := dictionary vm, dataStack := dataStack vm,
      returnStack := returnStack vm\<rparr> = vm\<lparr>tracing := False, trace := []\<rparr>"
    by (simp add: new_VM_def)
  show ?thesis
    unfolding clone_def Let_def d ds rs by (simp add: eq)
qed


lemma dataStack_at_write_state [simp]:
  "dataStack_at (machine_objects (write_state vm r h) q) = dataStack_at (machine_objects h q)"
  by (simp add: write_state_def Let_def)

lemma returnStack_at_write_state [simp]:
  "returnStack_at (machine_objects (write_state vm r h) q) = returnStack_at (machine_objects h q)"
  by (simp add: write_state_def Let_def)

lemma dictionary_at_write_state [simp]:
  "dictionary_at (machine_objects (write_state vm r h) q) = dictionary_at (machine_objects h q)"
  by (simp add: write_state_def Let_def)

lemma allocated_write_state [simp]: "allocated (write_state vm r h) = allocated h"
  by (simp add: write_state_def Let_def)

lemma separate_write_state [simp]: "separate (write_state vm p h) r q = separate h r q"
  by (simp add: separate_def)

lemma owned_write_state [simp]: "owned (write_state vm p h) r = owned h r"
  by (simp add: owned_def)

lemma state_at_write_other:
  "separate h r q \<Longrightarrow> state_at (write_state vm r h) q = state_at h q"
  by (auto simp: separate_def state_at_def write_state_def Let_def)

lemma state_at_write_same:
  "dataStack_at (machine_objects h r) \<noteq> returnStack_at (machine_objects h r) \<Longrightarrow>
   state_at (write_state vm r h) r = vm"
  by (simp add: state_at_def write_state_def Let_def)

lemma call_at_frame:
  assumes "separate h r q" and "call_at m r h = Some (e, h')"
  shows "state_at h' q = state_at h q \<and> separate h' r q"
  using assms
  by (auto simp: call_at_def state_at_write_other split: option.splits outcome.splits)

lemma perform_all_at_frame:
  "separate h r q \<Longrightarrow> perform_all_at N fuel r ops h = Some h2 \<Longrightarrow> state_at h2 q = state_at h q"
proof (induction ops arbitrary: h)
  case Nil
  then show ?case by simp
next
  case (Cons x xs)
  from Cons.prems(2) obtain e h' where c: "call_at (perform N fuel x) r h = Some (e, h')"
    and rest: "perform_all_at N fuel r xs h' = Some h2"
    by (auto split: option.splits)
  from call_at_frame [OF Cons.prems(1) c]
  have "state_at h' q = state_at h q" and "separate h' r q" by simp_all
  with Cons.IH [OF _ rest] show ?case by simp
qed

lemma new_VM_at_facts:
  assumes "new_VM_at cfg h = (a, h1)"
  shows "a = allocated h" and "state_at h1 a = new_VM cfg"
    and "owned h r \<Longrightarrow> state_at h1 r = state_at h r"
    and "owned h r \<Longrightarrow> separate h1 r a \<and> separate h1 a r"
    and "dataStack_at (machine_objects h1 a) \<noteq> returnStack_at (machine_objects h1 a)"
  using assms
  by (auto simp: new_VM_at_def Let_def state_at_def write_state_def owned_def separate_def)

lemma clone_at_value:
  assumes "vm_inv (state_at h r)" and "owned h r"
  shows "\<exists>h1. clone_at now r h = (Inr (allocated h), h1) \<and>
           state_at h1 r = state_at h r \<and>
           state_at h1 (allocated h) = (state_at h r)\<lparr>tracing := False, trace := []\<rparr> \<and>
           separate h1 r (allocated h) \<and> separate h1 (allocated h) r"
proof -
  obtain a h0 where n: "new_VM_at (Some (config (state_at h r))) h = (a, h0)"
    by (cases "new_VM_at (Some (config (state_at h r))) h")
  note f = new_VM_at_facts [OF n]
  have c: "clone_at now r h =
      (Inr a, write_state ((state_at h r)\<lparr>tracing := False, trace := []\<rparr>) a h0)"
    by (simp add: clone_at_def n clone_value [OF assms(1)])
  have s: "separate h0 a r" "separate h0 r a"
    using f(4) [OF assms(2)] by simp_all
  show ?thesis
    using c f(1) f(3) [OF assms(2)] f(5) s
    by (simp add: state_at_write_other state_at_write_same)
qed


lemma call_at_run_mono:
  "call_at (run N fuel code) r h = Some x \<Longrightarrow> call_at (run N (fuel + k) code) r h = Some x"
  by (auto simp: call_at_def dest: run_mono [where k = k] split: option.splits)

lemma clone_scenario_base:
  "clone_scenario 1 = Some ([VNum (Finite 8)], [VNum (Finite 5), VNum (Finite 3)])"
  by code_simp

lemma clone_scenario_more:
  "clone_scenario (1 + k) = Some ([VNum (Finite 8)], [VNum (Finite 5), VNum (Finite 3)])"
proof -
  obtain r h0 where bh: "bootstrapped_heap = (r, h0)"
    by (cases bootstrapped_heap)
  from clone_scenario_base obtain e1 h1 r' h2 e3 h3 where
    a: "call_at (run core 1 ''5 3'') r h0 = Some (e1, h1)" and
    b: "clone_at 3 r h1 = (Inr r', h2)" and
    c: "call_at (run core 1 ''+'') r' h2 = Some (e3, h3)" and
    d: "snapshot (dataStack (state_at h3 r')) = [VNum (Finite 8)]"
       "snapshot (dataStack (state_at h3 r)) = [VNum (Finite 5), VNum (Finite 3)]"
    unfolding clone_scenario_def bh
    by (auto split: option.splits prod.splits sum.splits)
  have a': "call_at (run core (1 + k) ''5 3'') r h0 = Some (e1, h1)"
    using a by (rule call_at_run_mono)
  have c': "call_at (run core (1 + k) ''+'') r' h2 = Some (e3, h3)"
    using c by (rule call_at_run_mono)
  show ?thesis
    unfolding clone_scenario_def bh prod.case a' option.case b sum.case c' d by (rule refl)
qed

lemma vm_inv_bootstrapped: "vm_inv bootstrapped"
  using dict_inv_bootstrapped
  by (simp add: vm_inv_def) (simp add: bootstrapped_def new_VM_def new_Stack_def stack_inv_def)

lemma bootstrapped_heap_state:
  "state_at (snd bootstrapped_heap) (fst bootstrapped_heap) = bootstrapped"
  "owned (snd bootstrapped_heap) (fst bootstrapped_heap)"
  by (simp_all add: bootstrapped_heap_def new_VM_at_def Let_def state_at_def write_state_def
        owned_def empty_heap_def)

text \<open>
  C2. A machine whose stacks are within the capacity its configuration gives them and whose
  dictionary lists exactly the names it holds can be cloned: \<open>clone\<close> returns a new machine
  and leaves the machine it was called on as it was. Right after the call the data stack of
  the clone has the snapshot of the original's, and the dictionary of the clone is that of
  the original: the same words under the same names in the same order, the protected core
  words and their flags included. Whatever calls of \<open>run\<close> and \<open>execute\<close> and operations of
  the data stack are then made on the clone, the state of the original stays what it was,
  and so does its snapshot; and calls on the original leave the state of the clone what it
  was. In the scenario, after \<open>run("5 3")\<close> on a bootstrapped machine, cloning it and
  \<open>run("+")\<close> on the clone, the stack of the clone is \<open>[8]\<close> and that of the original
  \<open>[5, 3]\<close>, whenever the host allows one nested call or more.
\<close>

theorem clone_independent:
  assumes "vm_inv (state_at h r)" and "owned h r"
  shows "\<exists>r' h1. clone_at now r h = (Inr r', h1) \<and>
     state_at h1 r = state_at h r \<and>
     snapshot (dataStack (state_at h1 r')) = snapshot (dataStack (state_at h r)) \<and>
     dictionary (state_at h1 r') = dictionary (state_at h r) \<and>
     (\<forall>ops h2. perform_all_at N fuel r' ops h1 = Some h2 \<longrightarrow> state_at h2 r = state_at h r) \<and>
     (\<forall>ops h2. perform_all_at N fuel r ops h1 = Some h2 \<longrightarrow>
        state_at h2 r' = state_at h1 r' \<and>
        snapshot (dataStack (state_at h2 r')) = snapshot (dataStack (state_at h r))) \<and>
     clone_scenario (1 + k) = Some ([VNum (Finite 8)], [VNum (Finite 5), VNum (Finite 3)])"
proof -
  from clone_at_value [OF assms, of now] obtain h1 where
    c: "clone_at now r h = (Inr (allocated h), h1)" and
    o: "state_at h1 r = state_at h r" and
    n: "state_at h1 (allocated h) = (state_at h r)\<lparr>tracing := False, trace := []\<rparr>" and
    s: "separate h1 r (allocated h)" "separate h1 (allocated h) r"
    by blast
  have f1: "state_at h2 r = state_at h r"
    if "perform_all_at N fuel (allocated h) ops h1 = Some h2" for ops h2
    using perform_all_at_frame [OF s(2) that] o by simp
  have f2: "state_at h2 (allocated h) = state_at h1 (allocated h) \<and>
      snapshot (dataStack (state_at h2 (allocated h))) = snapshot (dataStack (state_at h r))"
    if "perform_all_at N fuel r ops h1 = Some h2" for ops h2
    using perform_all_at_frame [OF s(1) that] n by simp
  have d: "snapshot (dataStack (state_at h1 (allocated h))) = snapshot (dataStack (state_at h r))"
    "dictionary (state_at h1 (allocated h)) = dictionary (state_at h r)"
    using n by simp_all
  from c o d f1 f2 clone_scenario_more [of k] show ?thesis
    by blast
qed

theorem clone_independent_witness:
  "vm_inv (state_at (snd bootstrapped_heap) (fst bootstrapped_heap)) \<and>
   owned (snd bootstrapped_heap) (fst bootstrapped_heap) \<and>
   (\<exists>r' h1 h2.
      clone_at 3 (fst bootstrapped_heap) (snd bootstrapped_heap) = (Inr r', h1) \<and>
      perform_all_at core 1 r' [Run ''5 3 +'', Pop, Push (VNum (Finite 1))] h1 = Some h2 \<and>
      snapshot (dataStack (state_at h2 r')) = [VNum (Finite 1)] \<and>
      state_at h2 (fst bootstrapped_heap) = bootstrapped)"
proof -
  let ?r = "fst bootstrapped_heap" and ?h = "snd bootstrapped_heap"
  let ?ops = "[Run ''5 3 +'', Pop, Push (VNum (Finite 1))]"
  have v: "vm_inv (state_at ?h ?r)" and o: "owned ?h ?r"
    by (simp_all add: bootstrapped_heap_state vm_inv_bootstrapped)
  from clone_independent [OF v o, of 3 core 1 0] obtain r' h1 where
    c: "clone_at 3 ?r ?h = (Inr r', h1)" and
    f: "\<And>ops h2. perform_all_at core 1 r' ops h1 = Some h2 \<Longrightarrow> state_at h2 ?r = state_at ?h ?r"
    by blast
  have e: "r' = projr (fst (clone_at 3 ?r ?h))" "h1 = snd (clone_at 3 ?r ?h)"
    using c by simp_all
  have "map_option (\<lambda>h2. snapshot (dataStack (state_at h2 r'))) (perform_all_at core 1 r' ?ops h1) =
      Some [VNum (Finite 1)]"
    unfolding e by code_simp
  then obtain h2 where p: "perform_all_at core 1 r' ?ops h1 = Some h2"
    and q: "snapshot (dataStack (state_at h2 r')) = [VNum (Finite 1)]"
    by auto
  from f [OF p] have "state_at h2 ?r = bootstrapped"
    by (simp add: bootstrapped_heap_state)
  with v o c p q show ?thesis
    by blast
qed

end
